theory Spec2Isabelle
  imports Main "HOL-Library.Sublist"
begin

section \<open>Data model\<close>

text \<open>
  The action's scanner (\<^verbatim>\<open>action/src/scanner.ts\<close>) works on values whose types are
  declared in \<^verbatim>\<open>./api\<close>. At run time they are plain JSON: a risk level and a
  data-quality assessment are strings that the scanner compares with \<^verbatim>\<open>===\<close>, so
  they stay strings here. A dependency mapping (\<^verbatim>\<open>Record<string, string>\<close>) is the
  list of its entries in iteration order, which is what \<^verbatim>\<open>Object.keys\<close> and
  \<^verbatim>\<open>Object.entries\<close> read.
\<close>

type_synonym Ecosystem = string

type_synonym Dependencies = "(string \<times> string) list"

record DataQuality =
  assessment :: "string option"

text \<open>
  Only \<^verbatim>\<open>risk_level\<close> and \<^verbatim>\<open>data_quality?.assessment\<close> are read by the scanner;
  the health score stands for the fields that are carried through.
\<close>

record PackageHealth =
  package :: string
  health_score :: int
  risk_level :: string
  data_quality :: "DataQuality option"

record DataQualityCounts =
  verified_count :: nat
  partial_count :: nat
  unverified_count :: nat

text \<open>
  The counts of a response are whatever numbers the remote service sent, hence \<open>int\<close>.
  The field \<^verbatim>\<open>data_quality\<close> of a ScanResult is named \<open>data_quality_counts\<close>, the
  name \<open>data_quality\<close> being the package's field.
\<close>

record ScanResult =
  total :: int
  critical :: int
  high :: int
  medium :: int
  low :: int
  packages :: "PackageHealth list"
  not_found :: "string list option"
  data_quality_counts :: "DataQualityCounts option"
  verified_risk_count :: "nat option"
  unverified_risk_count :: "nat option"

record ScanResultWithMeta = ScanResult +
  format :: string
  ecosystem :: string

text \<open>What \<^verbatim>\<open>readDependencies\<close> and \<^verbatim>\<open>readDependenciesFromFile\<close> return:
  dependencies, ecosystem, format.\<close>

datatype ReadResult = ReadResult Dependencies Ecosystem string

text \<open>The codes of an \<^verbatim>\<open>ApiClientError\<close>. The code \<^verbatim>\<open>not_found\<close> is named
  \<open>not_found_error\<close>, the name \<open>not_found\<close> being a field of a ScanResult.\<close>

datatype ErrorCode =
    invalid_request
  | unauthorized
  | forbidden
  | not_found_error
  | rate_limited
  | server_error
  | network_error
  | timeout
  | unknown_error

text \<open>
  Every value the scanner can see thrown: an \<^verbatim>\<open>ApiClientError\<close> (code, HTTP status,
  message), a \<^verbatim>\<open>DependencyParseError\<close>, any other \<^verbatim>\<open>Error\<close> with its message,
  and a thrown value \<open>v\<close> that is no \<^verbatim>\<open>Error\<close>, carried as \<^verbatim>\<open>String(v)\<close>.
\<close>

datatype thrown =
    ApiClientError ErrorCode "nat option" string
  | DependencyParseError string
  | Error string
  | NonError string

datatype stat_kind = IsFile | IsDirectory | IsOther

text \<open>
  What the scanner does to the outside world, in order: the reads of the manifest,
  the requests of the client, and the lines given to \<^verbatim>\<open>core.info\<close>,
  \<^verbatim>\<open>core.debug\<close> and \<^verbatim>\<open>core.warning\<close>.
\<close>

datatype event =
    ReadDependenciesFromFile string bool
  | ReadDependencies string bool
  | ClientScan Dependencies Ecosystem
  | Info string
  | Debug string
  | Warning string

text \<open>
  The collaborators of the scanner. \<open>scan env k deps eco\<close> is the outcome of the
  request the client makes after \<open>k\<close> earlier requests of the same scan, so a service
  may answer the same request differently each time. \<open>realpathSync\<close> fails with the
  message of what it threw.
\<close>

record Env =
  cwd :: string
  GITHUB_WORKSPACE :: "string option"
  existsSync :: "string \<Rightarrow> bool"
  realpathSync :: "string \<Rightarrow> string + string"
  statSync :: "string \<Rightarrow> thrown + stat_kind"
  readDependenciesFromFile :: "string \<Rightarrow> bool \<Rightarrow> thrown + ReadResult"
  readDependencies :: "string \<Rightarrow> bool \<Rightarrow> thrown + ReadResult"
  scan :: "nat \<Rightarrow> Dependencies \<Rightarrow> Ecosystem \<Rightarrow> thrown + ScanResult"

section \<open>Strings and paths\<close>

definition digit_char :: "nat \<Rightarrow> char" where
  "digit_char d = ''0123456789'' ! d"

text \<open>\<^verbatim>\<open>String(n)\<close> for a natural number.\<close>

fun show_nat :: "nat \<Rightarrow> string" where
  "show_nat n =
     (if n < 10 then [digit_char n] else show_nat (n div 10) @ [digit_char (n mod 10)])"

declare show_nat.simps [simp del]

text \<open>\<^verbatim>\<open>xs.join(sep)\<close>.\<close>

fun join :: "string \<Rightarrow> string list \<Rightarrow> string" where
  "join sep [] = []"
| "join sep [x] = x"
| "join sep (x # y # ys) = x @ sep @ join sep (y # ys)"

text \<open>\<^verbatim>\<open>s.startsWith(p)\<close>.\<close>

definition startsWith :: "string \<Rightarrow> string \<Rightarrow> bool" where
  "startsWith s p = (take (length p) s = p)"

text \<open>\<^verbatim>\<open>xs.slice(a, b)\<close> for indices \<open>0 \<le> a\<close>, \<open>0 \<le> b\<close>.\<close>

definition slice :: "nat \<Rightarrow> nat \<Rightarrow> 'a list \<Rightarrow> 'a list" where
  "slice a b xs = take (b - a) (drop a xs)"

text \<open>
  The functions of \<^verbatim>\<open>node:path\<close>, as they work on POSIX. A path is cut at its
  slashes; empty and \<^verbatim>\<open>.\<close> segments are dropped and \<^verbatim>\<open>..\<close> removes the segment
  before it (nothing at the root).
\<close>

fun split_slash :: "string \<Rightarrow> string list" where
  "split_slash [] = [[]]"
| "split_slash (c # cs) =
     (if c = CHR ''/'' then [] # split_slash cs
      else (case split_slash cs of
              [] \<Rightarrow> [[c]]
            | s # ss \<Rightarrow> (c # s) # ss))"

fun normalize_segments :: "string list \<Rightarrow> string list \<Rightarrow> string list" where
  "normalize_segments acc [] = acc"
| "normalize_segments acc (s # ss) =
     (if s = [] \<or> s = ''.'' then normalize_segments acc ss
      else if s = ''..'' then normalize_segments (butlast acc) ss
      else normalize_segments (acc @ [s]) ss)"

definition isAbsolute :: "string \<Rightarrow> bool" where
  "isAbsolute p = (p \<noteq> [] \<and> hd p = CHR ''/'')"

text \<open>The segments of \<^verbatim>\<open>resolve(p)\<close> in the working directory \<open>wd\<close> (an absolute path).\<close>

definition resolve_segments :: "string \<Rightarrow> string \<Rightarrow> string list" where
  "resolve_segments wd p =
     (if isAbsolute p then normalize_segments [] (split_slash p)
      else normalize_segments [] (split_slash wd @ split_slash p))"

definition resolve :: "string \<Rightarrow> string \<Rightarrow> string" where
  "resolve wd p = CHR ''/'' # join ''/'' (resolve_segments wd p)"

fun strip_common :: "string list \<Rightarrow> string list \<Rightarrow> string list \<times> string list" where
  "strip_common (x # xs) (y # ys) =
     (if x = y then strip_common xs ys else (x # xs, y # ys))"
| "strip_common xs ys = (xs, ys)"

text \<open>\<^verbatim>\<open>relative(from, to)\<close>: one \<^verbatim>\<open>..\<close> for every segment of \<open>from\<close> below the common
  directory, then the segments of \<open>to\<close> below it.\<close>

definition relative :: "string \<Rightarrow> string \<Rightarrow> string \<Rightarrow> string" where
  "relative wd from to =
     (case strip_common (resolve_segments wd from) (resolve_segments wd to) of
        (up, down) \<Rightarrow> join ''/'' (replicate (length up) ''..'' @ down))"

section \<open>The scanner\<close>

definition BATCH_SIZE :: nat where
  "BATCH_SIZE = 25"

text \<open>\<^verbatim>\<open>error instanceof Error ? error.message : String(error)\<close>.\<close>

fun error_message :: "thrown \<Rightarrow> string" where
  "error_message (ApiClientError c s m) = m"
| "error_message (DependencyParseError m) = m"
| "error_message (Error m) = m"
| "error_message (NonError v) = v"

subsection \<open>Reading the dependencies (lines 42 to 90)\<close>

text \<open>\<^verbatim>\<open>process.env.GITHUB_WORKSPACE || process.cwd()\<close>: an unset and an empty variable
  both give the working directory.\<close>

definition workspace :: "Env \<Rightarrow> string" where
  "workspace env =
     (case GITHUB_WORKSPACE env of
        None \<Rightarrow> cwd env
      | Some w \<Rightarrow> if w = [] then cwd env else w)"

definition read_deps :: "Env \<Rightarrow> string \<Rightarrow> bool \<Rightarrow> (thrown + ReadResult) \<times> event list" where
  "read_deps env basePath includeDev =
     (let resolvedPath = resolve (cwd env) basePath in
      if \<not> existsSync env resolvedPath then
        (Inl (DependencyParseError (''Path does not exist: '' @ resolvedPath)), [])
      else
        (case realpathSync env resolvedPath of
           Inl errMsg \<Rightarrow>
             (Inl (DependencyParseError
                (''Cannot resolve path '' @ resolvedPath @ '': '' @ errMsg)), [])
         | Inr realPath \<Rightarrow>
             (let relativeToWorkspace = relative (cwd env) (workspace env) realPath
              in
                if startsWith relativeToWorkspace ''..'' \<or> isAbsolute relativeToWorkspace then
                  (Inl (DependencyParseError
                     (''Path resolves outside workspace via symlink: '' @ resolvedPath
                        @ '' -> '' @ realPath)), [])
                else
                  (case statSync env realPath of
                     Inl err \<Rightarrow> (Inl err, [])
                   | Inr IsFile \<Rightarrow>
                       (readDependenciesFromFile env realPath includeDev,
                        [ReadDependenciesFromFile realPath includeDev])
                   | Inr IsDirectory \<Rightarrow>
                       (readDependencies env realPath includeDev,
                        [ReadDependencies realPath includeDev])
                   | Inr IsOther \<Rightarrow>
                       (Inl (DependencyParseError
                          (''Path is not a file or directory: '' @ realPath)), [])))))"

text \<open>The \<^verbatim>\<open>catch\<close> of lines 83 to 90, and the hint it adds to a parse error after two
  line feeds.\<close>

definition hint :: string where
  "hint = [CHR 0x0A, CHR 0x0A]
     @ ''Ensure the 'working-directory' input points to a directory containing a supported dependency file.''"

fun rethrow_parse_error :: "thrown \<Rightarrow> thrown" where
  "rethrow_parse_error (DependencyParseError m) = Error (m @ hint)"
| "rethrow_parse_error err = err"

subsection \<open>The requests (lines 92 to 163)\<close>

text \<open>\<^verbatim>\<open>{ ...result, format, ecosystem }\<close>.\<close>

definition with_meta :: "ScanResult \<Rightarrow> string \<Rightarrow> string \<Rightarrow> ScanResultWithMeta" where
  "with_meta result fmt eco =
     \<lparr>total = total result, critical = critical result, high = high result,
      medium = medium result, low = low result, packages = packages result,
      not_found = not_found result, data_quality_counts = data_quality_counts result,
      verified_risk_count = verified_risk_count result,
      unverified_risk_count = unverified_risk_count result,
      format = fmt, ecosystem = eco\<rparr>"

text \<open>The result of line 102 for an empty mapping.\<close>

definition empty_result :: "string \<Rightarrow> string \<Rightarrow> ScanResultWithMeta" where
  "empty_result fmt eco =
     \<lparr>total = 0, critical = 0, high = 0, medium = 0, low = 0, packages = [],
      not_found = None, data_quality_counts = None, verified_risk_count = None,
      unverified_risk_count = None, format = fmt, ecosystem = eco\<rparr>"

text \<open>The \<^verbatim>\<open>catch\<close> of the single request (lines 115 to 121).\<close>

fun rethrow_single :: "thrown \<Rightarrow> thrown" where
  "rethrow_single (ApiClientError c s m) = ApiClientError c s m"
| "rethrow_single err = Error (''Failed to scan dependencies: '' @ error_message err)"

text \<open>The errors that end a scan in batches (line 148).\<close>

fun aborts_scan :: "thrown \<Rightarrow> bool" where
  "aborts_scan (ApiClientError c s m) = (c = rate_limited \<or> c = unauthorized \<or> c = forbidden)"
| "aborts_scan err = False"

text \<open>The warning of line 156 for a failed batch.\<close>

definition batch_warning :: "nat \<Rightarrow> thrown \<Rightarrow> Dependencies \<Rightarrow> string" where
  "batch_warning batchNum err batchEntries =
     (let packageNames = map fst batchEntries;
          errorMessage = error_message err
      in ''Batch '' @ show_nat batchNum @ '' failed: '' @ errorMessage @ ''. Packages: ''
           @ join '', '' (slice 0 5 packageNames)
           @ (if length packageNames > 5
              then '' and '' @ show_nat (length packageNames - 5) @ '' more''
              else []))"

text \<open>The variables of the loop over the batches, and what it has done so far.\<close>

record BatchState =
  allPackages :: "PackageHealth list"
  notFound :: "string list"
  failedBatches :: nat
  events :: "event list"

text \<open>\<^verbatim>\<open>Math.ceil(n / BATCH_SIZE)\<close>.\<close>

definition totalBatches :: "nat \<Rightarrow> nat" where
  "totalBatches n = (n + (BATCH_SIZE - 1)) div BATCH_SIZE"

text \<open>
  The loop of lines 131 to 159 from index \<open>i\<close> on. It ends with the error it throws,
  if any, and the state it reached. The client has made \<open>i div BATCH_SIZE\<close> requests
  when the batch at \<open>i\<close> is sent.
\<close>

function batch_loop ::
  "Env \<Rightarrow> Ecosystem \<Rightarrow> Dependencies \<Rightarrow> nat \<Rightarrow> BatchState \<Rightarrow> thrown option \<times> BatchState" where
  "batch_loop env eco depEntries i st =
     (if i < length depEntries then
        (let batchNum = i div BATCH_SIZE + 1;
             batchEntries = slice i (min (i + BATCH_SIZE) (length depEntries)) depEntries;
             batchDeps = batchEntries;
             sent = events st
               @ [Info (''Processing batch '' @ show_nat batchNum @ ''/''
                    @ show_nat (totalBatches (length depEntries)) @ ''...''),
                  ClientScan batchDeps eco]
         in case scan env (i div BATCH_SIZE) batchDeps eco of
              Inr batchResult \<Rightarrow>
                batch_loop env eco depEntries (i + BATCH_SIZE)
                  (st\<lparr>allPackages := allPackages st @ packages batchResult,
                      notFound := (case not_found batchResult of
                                     None \<Rightarrow> notFound st
                                   | Some nf \<Rightarrow> notFound st @ nf),
                      events := sent\<rparr>)
            | Inl err \<Rightarrow>
                if aborts_scan err then (Some err, st\<lparr>events := sent\<rparr>)
                else
                  batch_loop env eco depEntries (i + BATCH_SIZE)
                    (st\<lparr>failedBatches := failedBatches st + 1,
                        events := sent @ [Warning (batch_warning batchNum err batchEntries)]\<rparr>))
      else (None, st))"
  by pat_completeness auto
termination
  by (relation "measure (\<lambda>(env, eco, depEntries, i, st). length depEntries - i)")
     (auto simp: BATCH_SIZE_def)

declare batch_loop.simps [simp del]

subsection \<open>The aggregate (lines 165 to 206)\<close>

record QualityState =
  verifiedCount :: nat
  partialCount :: nat
  unverifiedCount :: nat
  verifiedRiskCount :: nat
  unverifiedRiskCount :: nat

text \<open>\<^verbatim>\<open>pkg.data_quality?.assessment || "UNVERIFIED"\<close>: an absent field and the empty
  string both give the default.\<close>

definition assessment_of :: "PackageHealth \<Rightarrow> string" where
  "assessment_of pkg =
     (case data_quality pkg of
        None \<Rightarrow> ''UNVERIFIED''
      | Some dq \<Rightarrow>
          (case assessment dq of
             None \<Rightarrow> ''UNVERIFIED''
           | Some a \<Rightarrow> if a = [] then ''UNVERIFIED'' else a))"

definition isHighRisk :: "PackageHealth \<Rightarrow> bool" where
  "isHighRisk pkg = (risk_level pkg = ''HIGH'' \<or> risk_level pkg = ''CRITICAL'')"

text \<open>One turn of the loop of lines 172 to 186.\<close>

definition quality_step :: "QualityState \<Rightarrow> PackageHealth \<Rightarrow> QualityState" where
  "quality_step q pkg =
     (if assessment_of pkg = ''VERIFIED'' then
        q\<lparr>verifiedCount := verifiedCount q + 1,
          verifiedRiskCount := (if isHighRisk pkg then verifiedRiskCount q + 1
                                else verifiedRiskCount q)\<rparr>
      else if assessment_of pkg = ''PARTIAL'' then
        q\<lparr>partialCount := partialCount q + 1,
          unverifiedRiskCount := (if isHighRisk pkg then unverifiedRiskCount q + 1
                                  else unverifiedRiskCount q)\<rparr>
      else
        q\<lparr>unverifiedCount := unverifiedCount q + 1,
          unverifiedRiskCount := (if isHighRisk pkg then unverifiedRiskCount q + 1
                                  else unverifiedRiskCount q)\<rparr>)"

definition quality_loop :: "PackageHealth list \<Rightarrow> QualityState" where
  "quality_loop pkgs =
     foldl quality_step
       \<lparr>verifiedCount = 0, partialCount = 0, unverifiedCount = 0,
        verifiedRiskCount = 0, unverifiedRiskCount = 0\<rparr> pkgs"

text \<open>\<^verbatim>\<open>allPackages.filter(p => p.risk_level === level).length\<close>.\<close>

definition count_level :: "string \<Rightarrow> PackageHealth list \<Rightarrow> int" where
  "count_level level pkgs = int (length (filter (\<lambda>p. risk_level p = level) pkgs))"

definition aggregate :: "BatchState \<Rightarrow> string \<Rightarrow> string \<Rightarrow> ScanResultWithMeta" where
  "aggregate st fmt eco =
     (let q = quality_loop (allPackages st) in
      \<lparr>total = int (length (allPackages st)),
       critical = count_level ''CRITICAL'' (allPackages st),
       high = count_level ''HIGH'' (allPackages st),
       medium = count_level ''MEDIUM'' (allPackages st),
       low = count_level ''LOW'' (allPackages st),
       packages = allPackages st,
       not_found = (if length (notFound st) > 0 then Some (notFound st) else None),
       data_quality_counts =
         Some \<lparr>verified_count = verifiedCount q, partial_count = partialCount q,
               unverified_count = unverifiedCount q\<rparr>,
       verified_risk_count = Some (verifiedRiskCount q),
       unverified_risk_count = Some (unverifiedRiskCount q),
       format = fmt, ecosystem = eco\<rparr>)"

subsection \<open>scanDependencies\<close>

text \<open>The override of lines 93 to 96: \<^verbatim>\<open>if (ecosystemOverride)\<close> is false for an
  absent and for an empty override.\<close>

definition chosen_ecosystem :: "Ecosystem option \<Rightarrow> Ecosystem \<Rightarrow> Ecosystem" where
  "chosen_ecosystem ecosystemOverride ecosystem0 =
     (case ecosystemOverride of
        None \<Rightarrow> ecosystem0
      | Some e \<Rightarrow> if e = [] then ecosystem0 else e)"

text \<open>Lines 92 to 207, once the dependencies are read.\<close>

definition scan_read ::
  "Env \<Rightarrow> ReadResult \<Rightarrow> Ecosystem option \<Rightarrow> (thrown + ScanResultWithMeta) \<times> event list" where
  "scan_read env rr ecosystemOverride =
     (case rr of ReadResult dependencies ecosystem0 fmt \<Rightarrow>
        (let eco = chosen_ecosystem ecosystemOverride ecosystem0;
             ev0 = (case ecosystemOverride of
                      None \<Rightarrow> []
                    | Some e \<Rightarrow> if e = [] then []
                               else [Debug (''Ecosystem overridden to '' @ eco)]);
             depCount = length dependencies
         in
           if depCount = 0 then
             (Inr (empty_result fmt eco),
              ev0 @ [Info (''No dependencies found in '' @ fmt)])
           else
             (let ev1 = ev0 @ [Info (''Found '' @ show_nat depCount @ '' '' @ eco
                          @ '' dependencies in '' @ fmt @ '', analyzing health scores...'')]
              in
                if depCount \<le> BATCH_SIZE then
                  (case scan env 0 dependencies eco of
                     Inr result \<Rightarrow>
                       (Inr (with_meta result fmt eco), ev1 @ [ClientScan dependencies eco])
                   | Inl err \<Rightarrow>
                       (Inl (rethrow_single err), ev1 @ [ClientScan dependencies eco]))
                else
                  (case batch_loop env eco dependencies 0
                          \<lparr>allPackages = [], notFound = [], failedBatches = 0, events = ev1\<rparr> of
                     (Some err, st) \<Rightarrow> (Inl err, events st)
                   | (None, st) \<Rightarrow>
                       (Inr (aggregate st fmt eco),
                        events st
                          @ (if failedBatches st > 0
                             then [Warning (show_nat (failedBatches st)
                                      @ '' batch(es) failed. Results may be incomplete.'')]
                             else []))))))"

text \<open>
  \<^verbatim>\<open>scanDependencies(apiKey, basePath, includeDev, ecosystemOverride)\<close>: what it
  returns or throws, and what it did. The key only goes into the client.
\<close>

definition scanDependencies ::
  "Env \<Rightarrow> string \<Rightarrow> string \<Rightarrow> bool \<Rightarrow> Ecosystem option
     \<Rightarrow> (thrown + ScanResultWithMeta) \<times> event list" where
  "scanDependencies env apiKey basePath includeDev ecosystemOverride =
     (case read_deps env basePath includeDev of
        (Inl err, evs) \<Rightarrow> (Inl (rethrow_parse_error err), evs)
      | (Inr rr, evs) \<Rightarrow>
          (case scan_read env rr ecosystemOverride of
             (res, evs') \<Rightarrow> (res, evs @ evs')))"

text \<open>The requests among the events, in order.\<close>

fun requests :: "event list \<Rightarrow> (Dependencies \<times> Ecosystem) list" where
  "requests [] = []"
| "requests (ClientScan d e # evs) = (d, e) # requests evs"
| "requests (ev # evs) = requests evs"

fun warnings :: "event list \<Rightarrow> string list" where
  "warnings [] = []"
| "warnings (Warning w # evs) = w # warnings evs"
| "warnings (ev # evs) = warnings evs"

fun reads :: "event list \<Rightarrow> event list" where
  "reads [] = []"
| "reads (ReadDependenciesFromFile p d # evs) = ReadDependenciesFromFile p d # reads evs"
| "reads (ReadDependencies p d # evs) = ReadDependencies p d # reads evs"
| "reads (ev # evs) = reads evs"

section \<open>The API client\<close>

text \<open>
  The client's source (\<^verbatim>\<open>packages/api-client/src/index.ts\<close>) is not among the files;
  its test \<^verbatim>\<open>retry.test.ts\<close> is. The classifier and the executor below follow
  sections 4.1 and 4.2 of the specification.
\<close>

text \<open>Modelled from the spec: what the classifier is given, an HTTP status of a
  response that is no success, the absence of a response, or the abort of a request that
  exceeded its time budget (the client's failure type is missing).\<close>

datatype failure = HttpStatus nat | NoResponse | TimeoutAbort

text \<open>Modelled from the spec: the Error Classifier of section 4.1 (the client's function
  that maps a failure to its code is missing).\<close>

fun classify :: "failure \<Rightarrow> ErrorCode" where
  "classify (HttpStatus s) =
     (if s = 400 then invalid_request
      else if s = 401 then unauthorized
      else if s = 403 then forbidden
      else if s = 404 then not_found_error
      else if s = 429 then rate_limited
      else if 500 \<le> s \<and> s \<le> 599 then server_error
      else unknown_error)"
| "classify NoResponse = network_error"
| "classify TimeoutAbort = timeout"

text \<open>Modelled from the spec: the retry eligibility policy of section 4.1 (the client's
  retry test is missing).\<close>

fun retryable :: "ErrorCode \<Rightarrow> bool" where
  "retryable rate_limited = True"
| "retryable server_error = True"
| "retryable network_error = True"
| "retryable timeout = True"
| "retryable code = False"

text \<open>Modelled from the spec: the outcome of one attempt of section 4.2, a parsed body, a
  success response whose body does not parse, or a failure with the message extracted
  for it (the client's request code is missing).\<close>

datatype 'a attempt = Succeeded 'a | ParseFailed string | Failed failure string

text \<open>Modelled from the spec: the HTTP status an \<^verbatim>\<open>ApiClientError\<close> carries, if
  applicable (section 3; the client's error class is missing).\<close>

fun failure_status :: "failure \<Rightarrow> nat option" where
  "failure_status (HttpStatus s) = Some s"
| "failure_status f = None"

text \<open>Modelled from the spec: the Retrying Request Executor of section 4.2 (the client's
  request method is missing). \<open>fetch n\<close> is the outcome of the attempt after \<open>n\<close> earlier
  ones, \<open>left\<close> the retries that remain; the result comes with the number of attempts
  made. The waits between attempts change neither and are left out.\<close>

fun attempts_from :: "(nat \<Rightarrow> 'a attempt) \<Rightarrow> nat \<Rightarrow> nat \<Rightarrow> (thrown + 'a) \<times> nat" where
  "attempts_from fetch n left =
     (case fetch n of
        Succeeded body \<Rightarrow> (Inr body, Suc n)
      | ParseFailed msg \<Rightarrow> (Inl (Error msg), Suc n)
      | Failed f msg \<Rightarrow>
          (case left of
             Suc left' \<Rightarrow>
               if retryable (classify f) then attempts_from fetch (Suc n) left'
               else (Inl (ApiClientError (classify f) (failure_status f) msg), Suc n)
           | 0 \<Rightarrow> (Inl (ApiClientError (classify f) (failure_status f) msg), Suc n)))"

declare attempts_from.simps [simp del]

text \<open>Modelled from the spec: \<^verbatim>\<open>execute(requestSpec)\<close> of section 4.2 with its maximum
  retry count (the client's request method is missing).\<close>

definition execute :: "nat \<Rightarrow> (nat \<Rightarrow> 'a attempt) \<Rightarrow> (thrown + 'a) \<times> nat" where
  "execute maxRetries fetch = attempts_from fetch 0 maxRetries"

section \<open>Notions used in the statements\<close>

text \<open>The \<open>k\<close>-th batch of a mapping (from 0), the outcome of its request, and what
  the outcome adds to the result and to the warnings.\<close>

definition batch_at :: "Dependencies \<Rightarrow> nat \<Rightarrow> Dependencies" where
  "batch_at deps k = take BATCH_SIZE (drop (k * BATCH_SIZE) deps)"

definition outcome_at :: "Env \<Rightarrow> Ecosystem \<Rightarrow> Dependencies \<Rightarrow> nat \<Rightarrow> thrown + ScanResult" where
  "outcome_at env eco deps k = scan env k (batch_at deps k) eco"

definition fatal_at :: "Env \<Rightarrow> Ecosystem \<Rightarrow> Dependencies \<Rightarrow> nat \<Rightarrow> bool" where
  "fatal_at env eco deps k =
     (case outcome_at env eco deps k of Inl err \<Rightarrow> aborts_scan err | Inr r \<Rightarrow> False)"

definition failed_at :: "Env \<Rightarrow> Ecosystem \<Rightarrow> Dependencies \<Rightarrow> nat \<Rightarrow> bool" where
  "failed_at env eco deps k =
     (case outcome_at env eco deps k of Inl err \<Rightarrow> True | Inr r \<Rightarrow> False)"

definition packages_at :: "Env \<Rightarrow> Ecosystem \<Rightarrow> Dependencies \<Rightarrow> nat \<Rightarrow> PackageHealth list" where
  "packages_at env eco deps k =
     (case outcome_at env eco deps k of Inl err \<Rightarrow> [] | Inr r \<Rightarrow> packages r)"

definition not_found_at :: "Env \<Rightarrow> Ecosystem \<Rightarrow> Dependencies \<Rightarrow> nat \<Rightarrow> string list" where
  "not_found_at env eco deps k =
     (case outcome_at env eco deps k of
        Inl err \<Rightarrow> []
      | Inr r \<Rightarrow> (case not_found r of None \<Rightarrow> [] | Some nf \<Rightarrow> nf))"

definition warnings_at :: "Env \<Rightarrow> Ecosystem \<Rightarrow> Dependencies \<Rightarrow> nat \<Rightarrow> string list" where
  "warnings_at env eco deps k =
     (case outcome_at env eco deps k of
        Inl err \<Rightarrow> [batch_warning (k + 1) err (batch_at deps k)]
      | Inr r \<Rightarrow> [])"

text \<open>What a state is after the batches \<open>k\<close> to \<open>n - 1\<close>, none of which ended the scan.\<close>

definition after_batches ::
  "Env \<Rightarrow> Ecosystem \<Rightarrow> Dependencies \<Rightarrow> nat \<Rightarrow> nat \<Rightarrow> BatchState \<Rightarrow> BatchState \<Rightarrow> bool" where
  "after_batches env eco deps k n st st' =
     (allPackages st' = allPackages st @ concat (map (packages_at env eco deps) [k..<n])
      \<and> notFound st' = notFound st @ concat (map (not_found_at env eco deps) [k..<n])
      \<and> failedBatches st' = failedBatches st + length (filter (failed_at env eco deps) [k..<n])
      \<and> requests (events st') = requests (events st) @ map (\<lambda>j. (batch_at deps j, eco)) [k..<n]
      \<and> warnings (events st') = warnings (events st) @ concat (map (warnings_at env eco deps) [k..<n]))"

text \<open>The last warning of a scan in batches (line 162).\<close>

definition final_warnings :: "nat \<Rightarrow> string list" where
  "final_warnings failed =
     (if failed > 0
      then [show_nat failed @ '' batch(es) failed. Results may be incomplete.'']
      else [])"

text \<open>What the successful batches of a scan returned, merged in batch order.\<close>

definition merged :: "Env \<Rightarrow> Ecosystem \<Rightarrow> Dependencies \<Rightarrow> BatchState" where
  "merged env eco deps =
     \<lparr>allPackages = concat (map (packages_at env eco deps) [0..<totalBatches (length deps)]),
      notFound = concat (map (not_found_at env eco deps) [0..<totalBatches (length deps)]),
      failedBatches = 0, events = []\<rparr>"

definition failed_count :: "Env \<Rightarrow> Ecosystem \<Rightarrow> Dependencies \<Rightarrow> nat" where
  "failed_count env eco deps =
     length (filter (failed_at env eco deps) [0..<totalBatches (length deps)])"

text \<open>The risk levels the type of a package declares.\<close>

definition risk_levels :: "string set" where
  "risk_levels = {''CRITICAL'', ''HIGH'', ''MEDIUM'', ''LOW''}"

text \<open>
  The data quality of a package as the specification words it: VERIFIED or PARTIAL
  when the assessment says so, UNVERIFIED when the assessment is missing or is anything
  else.
\<close>

datatype quality = VERIFIED | PARTIAL | UNVERIFIED

definition spec_quality :: "PackageHealth \<Rightarrow> quality" where
  "spec_quality p =
     (case data_quality p of
        None \<Rightarrow> UNVERIFIED
      | Some dq \<Rightarrow>
          (case assessment dq of
             None \<Rightarrow> UNVERIFIED
           | Some a \<Rightarrow>
               if a = ''VERIFIED'' then VERIFIED
               else if a = ''PARTIAL'' then PARTIAL
               else UNVERIFIED))"

definition spec_high_risk :: "PackageHealth \<Rightarrow> bool" where
  "spec_high_risk p = (risk_level p = ''HIGH'' \<or> risk_level p = ''CRITICAL'')"

text \<open>The not-found names of all successful batches, in batch order.\<close>

definition merged_not_found :: "Env \<Rightarrow> Ecosystem \<Rightarrow> Dependencies \<Rightarrow> string list" where
  "merged_not_found env eco deps =
     concat (map (not_found_at env eco deps) [0..<totalBatches (length deps)])"

text \<open>
  A real path lies within the workspace when the segments of the workspace directory
  are the first segments of the path.
\<close>

definition inside_workspace :: "Env \<Rightarrow> string \<Rightarrow> bool" where
  "inside_workspace env realPath =
     prefix (resolve_segments (cwd env) (workspace env)) (resolve_segments (cwd env) realPath)"

subsection \<open>Example environments\<close>

text \<open>
  The setting of the scanner's tests: the workspace is \<^verbatim>\<open>/repo\<close>, every path exists,
  is its own real path and is a directory, and the directory's manifest holds \<open>deps\<close>.
\<close>

definition repo_env ::
  "Dependencies \<Rightarrow> (nat \<Rightarrow> Dependencies \<Rightarrow> Ecosystem \<Rightarrow> thrown + ScanResult) \<Rightarrow> Env" where
  "repo_env deps sc =
     \<lparr>cwd = ''/repo'', GITHUB_WORKSPACE = Some ''/repo'',
      existsSync = (\<lambda>p. True),
      realpathSync = (\<lambda>p. Inr p),
      statSync = (\<lambda>p. Inr IsDirectory),
      readDependenciesFromFile = (\<lambda>p d. Inl (DependencyParseError ''No dependency file found'')),
      readDependencies = (\<lambda>p d. Inr (ReadResult deps ''npm'' ''package.json'')),
      scan = sc\<rparr>"

text \<open>A service that is never reached.\<close>

definition no_service :: "nat \<Rightarrow> Dependencies \<Rightarrow> Ecosystem \<Rightarrow> thrown + ScanResult" where
  "no_service k deps eco = Inl (ApiClientError network_error None ''unreachable'')"

text \<open>The mapping of the batch tests: \<^verbatim>\<open>pkg-0\<close> to \<^verbatim>\<open>pkg-(n-1)\<close>.\<close>

definition numbered_deps :: "nat \<Rightarrow> Dependencies" where
  "numbered_deps n = map (\<lambda>i. (''pkg-'' @ show_nat i, ''^1.0.0'')) [0..<n]"

definition low_package :: "string \<Rightarrow> PackageHealth" where
  "low_package name =
     \<lparr>package = name, health_score = 85, risk_level = ''LOW'', data_quality = None\<rparr>"

definition five_low :: ScanResult where
  "five_low =
     \<lparr>total = 5, critical = 0, high = 0, medium = 0, low = 5,
      packages = map low_package [''pkg-25'', ''pkg-26'', ''pkg-27'', ''pkg-28'', ''pkg-29''],
      not_found = None, data_quality_counts = None, verified_risk_count = None,
      unverified_risk_count = None\<rparr>"

text \<open>A service whose first answer is a failure and whose later answers are five LOW
  packages.\<close>

definition first_fails :: "thrown \<Rightarrow> nat \<Rightarrow> Dependencies \<Rightarrow> Ecosystem \<Rightarrow> thrown + ScanResult" where
  "first_fails err k deps eco = (if k = 0 then Inl err else Inr five_low)"

text \<open>The answer of the test "does not batch when <= 25 packages": a total of 20, 20
  LOW, and no package.\<close>

definition twenty_low_no_packages :: ScanResult where
  "twenty_low_no_packages =
     \<lparr>total = 20, critical = 0, high = 0, medium = 0, low = 20, packages = [],
      not_found = None, data_quality_counts = None, verified_risk_count = None,
      unverified_risk_count = None\<rparr>"

text \<open>A service that always gives the same answer.\<close>

definition always_answers :: "ScanResult \<Rightarrow> nat \<Rightarrow> Dependencies \<Rightarrow> Ecosystem \<Rightarrow> thrown + ScanResult" where
  "always_answers r k deps eco = Inr r"

text \<open>One LOW package, as the service answers for \<^verbatim>\<open>lodash\<close>.\<close>

definition one_low :: ScanResult where
  "one_low =
     \<lparr>total = 1, critical = 0, high = 0, medium = 0, low = 1,
      packages = [\<lparr>package = ''lodash'', health_score = 90, risk_level = ''LOW'',
                   data_quality = None\<rparr>],
      not_found = None, data_quality_counts = None, verified_risk_count = None,
      unverified_risk_count = None\<rparr>"

definition lodash_only :: Dependencies where
  "lodash_only = [(''lodash'', ''^4.17.21'')]"

text \<open>Five packages of every kind of data quality.\<close>

definition quality_package :: "string \<Rightarrow> string \<Rightarrow> DataQuality option \<Rightarrow> PackageHealth" where
  "quality_package name level dq =
     \<lparr>package = name, health_score = 50, risk_level = level, data_quality = dq\<rparr>"

definition mixed_quality :: ScanResult where
  "mixed_quality =
     \<lparr>total = 5, critical = 1, high = 2, medium = 0, low = 2,
      packages =
        [quality_package ''a'' ''HIGH'' (Some \<lparr>assessment = Some ''VERIFIED''\<rparr>),
         quality_package ''b'' ''CRITICAL'' (Some \<lparr>assessment = Some ''PARTIAL''\<rparr>),
         quality_package ''c'' ''HIGH'' None,
         quality_package ''d'' ''LOW'' (Some \<lparr>assessment = Some ''BOGUS''\<rparr>),
         quality_package ''e'' ''LOW'' (Some \<lparr>assessment = Some ''VERIFIED''\<rparr>)],
      not_found = None, data_quality_counts = None, verified_risk_count = None,
      unverified_risk_count = None\<rparr>"

text \<open>An answer without packages that reports names as not found.\<close>

definition not_found_only :: "string list \<Rightarrow> ScanResult" where
  "not_found_only names =
     \<lparr>total = 0, critical = 0, high = 0, medium = 0, low = 0, packages = [],
      not_found = Some names, data_quality_counts = None, verified_risk_count = None,
      unverified_risk_count = None\<rparr>"

text \<open>A service with one answer for the first request and one for the later ones.\<close>

definition two_answers ::
  "ScanResult \<Rightarrow> ScanResult \<Rightarrow> nat \<Rightarrow> Dependencies \<Rightarrow> Ecosystem \<Rightarrow> thrown + ScanResult" where
  "two_answers r1 r2 k deps eco = (if k = 0 then Inr r1 else Inr r2)"

text \<open>The packages \<^verbatim>\<open>pkg-start\<close>, \<^verbatim>\<open>pkg-(start+1)\<close>, ... with the given risk levels, as the
  batch test builds them.\<close>

definition numbered_packages :: "nat \<Rightarrow> string list \<Rightarrow> PackageHealth list" where
  "numbered_packages start levels =
     map (\<lambda>(i, level).
            \<lparr>package = ''pkg-'' @ show_nat (start + i), health_score = 50 + int i,
             risk_level = level, data_quality = None\<rparr>)
       (enumerate 0 levels)"

text \<open>The two answers of the test "processes dependencies in batches when > 25
  packages".\<close>

definition first_batch_answer :: ScanResult where
  "first_batch_answer =
     \<lparr>total = 25, critical = 1, high = 2, medium = 10, low = 12,
      packages = numbered_packages 0
        (replicate 1 ''CRITICAL'' @ replicate 2 ''HIGH'' @ replicate 10 ''MEDIUM''
           @ replicate 12 ''LOW''),
      not_found = None, data_quality_counts = None, verified_risk_count = None,
      unverified_risk_count = None\<rparr>"

definition second_batch_answer :: ScanResult where
  "second_batch_answer =
     \<lparr>total = 5, critical = 0, high = 1, medium = 2, low = 2,
      packages = numbered_packages 25
        (replicate 1 ''HIGH'' @ replicate 2 ''MEDIUM'' @ replicate 2 ''LOW''),
      not_found = None, data_quality_counts = None, verified_risk_count = None,
      unverified_risk_count = None\<rparr>"

text \<open>
  The setting of the symlink tests: no \<^verbatim>\<open>GITHUB_WORKSPACE\<close>, the working directory
  \<^verbatim>\<open>/repo\<close>, every path is a file whose manifest holds \<^verbatim>\<open>lodash\<close>; \<open>there\<close> tells
  whether paths exist and \<open>real\<close> resolves the symlinks.
\<close>

definition resolves_to :: "string \<Rightarrow> string \<Rightarrow> string + string" where
  "resolves_to target p = Inr target"

definition unresolved :: "string \<Rightarrow> string \<Rightarrow> string + string" where
  "unresolved msg p = Inl msg"

definition symlink_env :: "bool \<Rightarrow> (string \<Rightarrow> string + string) \<Rightarrow> Env" where
  "symlink_env there real =
     \<lparr>cwd = ''/repo'', GITHUB_WORKSPACE = None,
      existsSync = (\<lambda>p. there),
      realpathSync = real,
      statSync = (\<lambda>p. Inr IsFile),
      readDependenciesFromFile = (\<lambda>p d. Inr (ReadResult lodash_only ''npm'' ''package.json'')),
      readDependencies = (\<lambda>p d. Inl (DependencyParseError ''No dependency file found'')),
      scan = always_answers one_low\<rparr>"

text \<open>A service for the client whose every attempt fails the same way.\<close>

definition always_fails :: "failure \<Rightarrow> string \<Rightarrow> nat \<Rightarrow> string attempt" where
  "always_fails f msg n = Failed f msg"

section \<open>Properties\<close>

subsection \<open>Events and paths\<close>

lemma requests_append: "requests (xs @ ys) = requests xs @ requests ys"
  by (induction xs rule: requests.induct) simp_all

lemma warnings_append: "warnings (xs @ ys) = warnings xs @ warnings ys"
  by (induction xs rule: warnings.induct) simp_all

lemma reads_append: "reads (xs @ ys) = reads xs @ reads ys"
  by (induction xs rule: reads.induct) simp_all

lemma read_deps_requests: "requests (snd (read_deps env basePath includeDev)) = []"
  by (simp add: read_deps_def Let_def split: sum.splits stat_kind.splits option.splits)

lemma read_deps_warnings: "warnings (snd (read_deps env basePath includeDev)) = []"
  by (simp add: read_deps_def Let_def split: sum.splits stat_kind.splits option.splits)

lemma scanDependencies_read:
  assumes "read_deps env basePath includeDev = (Inr rr, evs)"
  shows "scanDependencies env apiKey basePath includeDev ov
           = (fst (scan_read env rr ov), evs @ snd (scan_read env rr ov))"
  using assms by (simp add: scanDependencies_def split: prod.splits)

lemma read_deps_repo_env:
  "read_deps (repo_env deps sc) ''/repo'' includeDev
     = (Inr (ReadResult deps ''npm'' ''package.json''), [ReadDependencies ''/repo'' includeDev])"
  by (simp add: read_deps_def repo_env_def resolve_def resolve_segments_def isAbsolute_def
      relative_def startsWith_def workspace_def)

subsection \<open>The loop over the batches\<close>

lemma batch_index_less: "k * BATCH_SIZE < n \<longleftrightarrow> k < totalBatches n"
  unfolding BATCH_SIZE_def totalBatches_def by arith

lemma slice_batch:
  "slice (k * BATCH_SIZE) (min (k * BATCH_SIZE + BATCH_SIZE) (length deps)) deps = batch_at deps k"
  unfolding slice_def batch_at_def by (simp add: min_def)

lemma batch_call_index: "k * BATCH_SIZE div BATCH_SIZE = k"
  by (simp add: BATCH_SIZE_def)

lemma Suc_batch: "Suc k * BATCH_SIZE = k * BATCH_SIZE + BATCH_SIZE"
  by simp

lemma batch_loop_done:
  "\<not> k < totalBatches (length deps) \<Longrightarrow> batch_loop env eco deps (k * BATCH_SIZE) st = (None, st)"
  by (subst batch_loop.simps) (simp add: batch_index_less)

lemma batch_loop_step:
  assumes "k < totalBatches (length deps)"
  shows "batch_loop env eco deps (k * BATCH_SIZE) st =
     (let sent = events st
               @ [Info (''Processing batch '' @ show_nat (k + 1) @ ''/''
                    @ show_nat (totalBatches (length deps)) @ ''...''),
                  ClientScan (batch_at deps k) eco]
      in case outcome_at env eco deps k of
              Inr batchResult \<Rightarrow>
                batch_loop env eco deps (Suc k * BATCH_SIZE)
                  (st\<lparr>allPackages := allPackages st @ packages batchResult,
                      notFound := (case not_found batchResult of
                                     None \<Rightarrow> notFound st
                                   | Some nf \<Rightarrow> notFound st @ nf),
                      events := sent\<rparr>)
            | Inl err \<Rightarrow>
                if aborts_scan err then (Some err, st\<lparr>events := sent\<rparr>)
                else
                  batch_loop env eco deps (Suc k * BATCH_SIZE)
                    (st\<lparr>failedBatches := failedBatches st + 1,
                        events := sent @ [Warning (batch_warning (k + 1) err (batch_at deps k))]\<rparr>))"
  using assms
  by (subst batch_loop.simps)
     (simp add: batch_index_less slice_batch batch_call_index outcome_at_def Let_def
        Suc_batch del: mult_Suc split: sum.splits)


lemma after_batches_refl: "after_batches env eco deps k k st st"
  by (simp add: after_batches_def)

lemma after_batches_ok:
  assumes "k < n" and "outcome_at env eco deps k = Inr r"
    and "after_batches env eco deps (Suc k) n
           (st\<lparr>allPackages := allPackages st @ packages r,
               notFound := (case not_found r of None \<Rightarrow> notFound st | Some nf \<Rightarrow> notFound st @ nf),
               events := events st @ [Info msg, ClientScan (batch_at deps k) eco]\<rparr>) st'"
  shows "after_batches env eco deps k n st st'"
  using assms
  by (simp add: after_batches_def upt_conv_Cons packages_at_def not_found_at_def failed_at_def
      warnings_at_def requests_append warnings_append split: option.splits)

lemma after_batches_failed:
  assumes "k < n" and "outcome_at env eco deps k = Inl err"
    and "after_batches env eco deps (Suc k) n
           (st\<lparr>failedBatches := failedBatches st + 1,
               events := events st @ [Info msg, ClientScan (batch_at deps k) eco]
                 @ [Warning (batch_warning (k + 1) err (batch_at deps k))]\<rparr>) st'"
  shows "after_batches env eco deps k n st st'"
  using assms
  by (simp add: after_batches_def upt_conv_Cons packages_at_def not_found_at_def failed_at_def
      warnings_at_def requests_append warnings_append)

lemma batch_loop_completes:
  assumes "batch_loop env eco deps (k * BATCH_SIZE) st = (None, st')"
  shows "after_batches env eco deps k (max k (totalBatches (length deps))) st st'
         \<and> (\<forall>j. k \<le> j \<and> j < totalBatches (length deps) \<longrightarrow> \<not> fatal_at env eco deps j)"
  using assms
proof (induction "totalBatches (length deps) - k" arbitrary: k st)
  case 0
  then have "\<not> k < totalBatches (length deps)" by simp
  with 0 show ?case
    by (auto simp: batch_loop_done after_batches_refl max_def)
next
  case (Suc m)
  let ?n = "totalBatches (length deps)"
  from Suc.hyps have less: "k < ?n" and m: "m = ?n - Suc k" by simp_all
  have mx: "max k ?n = ?n" "max (Suc k) ?n = ?n" using less by simp_all
  note step = batch_loop_step [OF less, of env eco st]
  show ?case
  proof (cases "outcome_at env eco deps k")
    case (Inr r)
    with Suc.prems step have run: "batch_loop env eco deps (Suc k * BATCH_SIZE)
        (st\<lparr>allPackages := allPackages st @ packages r,
            notFound := (case not_found r of None \<Rightarrow> notFound st | Some nf \<Rightarrow> notFound st @ nf),
            events := events st
               @ [Info (''Processing batch '' @ show_nat (k + 1) @ ''/''
                    @ show_nat ?n @ ''...''),
                  ClientScan (batch_at deps k) eco]\<rparr>) = (None, st')"
      by (simp add: Let_def)
    from Suc.hyps(1) [OF m run]
    have ih: "after_batches env eco deps (Suc k) ?n
        (st\<lparr>allPackages := allPackages st @ packages r,
            notFound := (case not_found r of None \<Rightarrow> notFound st | Some nf \<Rightarrow> notFound st @ nf),
            events := events st
               @ [Info (''Processing batch '' @ show_nat (k + 1) @ ''/''
                    @ show_nat ?n @ ''...''),
                  ClientScan (batch_at deps k) eco]\<rparr>) st'"
      and rest: "\<forall>j. Suc k \<le> j \<and> j < ?n \<longrightarrow> \<not> fatal_at env eco deps j"
      by (simp_all add: mx)
    have here: "\<not> fatal_at env eco deps k" using Inr by (simp add: fatal_at_def)
    have "\<forall>j. k \<le> j \<and> j < ?n \<longrightarrow> \<not> fatal_at env eco deps j"
      using rest here by (metis Suc_leI le_neq_implies_less)
    moreover have "after_batches env eco deps k ?n st st'"
      by (rule after_batches_ok [OF less Inr ih])
    ultimately show ?thesis by (simp add: mx)
  next
    case (Inl err)
    with Suc.prems step have nf: "\<not> aborts_scan err"
      by (auto simp: Let_def split: if_splits)
    with Inl Suc.prems step have run: "batch_loop env eco deps (Suc k * BATCH_SIZE)
        (st\<lparr>failedBatches := failedBatches st + 1,
            events := (events st
               @ [Info (''Processing batch '' @ show_nat (k + 1) @ ''/''
                    @ show_nat ?n @ ''...''),
                  ClientScan (batch_at deps k) eco])
               @ [Warning (batch_warning (k + 1) err (batch_at deps k))]\<rparr>) = (None, st')"
      by (simp add: Let_def)
    from Suc.hyps(1) [OF m run]
    have ih: "after_batches env eco deps (Suc k) ?n
        (st\<lparr>failedBatches := failedBatches st + 1,
            events := events st
               @ [Info (''Processing batch '' @ show_nat (k + 1) @ ''/''
                    @ show_nat ?n @ ''...''),
                  ClientScan (batch_at deps k) eco]
               @ [Warning (batch_warning (k + 1) err (batch_at deps k))]\<rparr>) st'"
      and rest: "\<forall>j. Suc k \<le> j \<and> j < ?n \<longrightarrow> \<not> fatal_at env eco deps j"
      by (simp_all add: mx)
    have here: "\<not> fatal_at env eco deps k" using Inl nf by (simp add: fatal_at_def)
    have "\<forall>j. k \<le> j \<and> j < ?n \<longrightarrow> \<not> fatal_at env eco deps j"
      using rest here by (metis Suc_leI le_neq_implies_less)
    moreover have "after_batches env eco deps k ?n st st'"
      by (rule after_batches_failed [OF less Inl ih])
    ultimately show ?thesis by (simp add: mx)
  qed
qed


lemma batch_loop_aborts:
  assumes "batch_loop env eco deps (k * BATCH_SIZE) st = (Some err, st')"
  shows "\<exists>j. k \<le> j \<and> j < totalBatches (length deps)
           \<and> outcome_at env eco deps j = Inl err \<and> aborts_scan err
           \<and> (\<forall>l. k \<le> l \<and> l < j \<longrightarrow> \<not> fatal_at env eco deps l)
           \<and> requests (events st')
               = requests (events st) @ map (\<lambda>j. (batch_at deps j, eco)) [k..<Suc j]"
  using assms
proof (induction "totalBatches (length deps) - k" arbitrary: k st)
  case 0
  then have "\<not> k < totalBatches (length deps)" by simp
  with 0 show ?case
    by (simp add: batch_loop_done)
next
  case (Suc m)
  let ?n = "totalBatches (length deps)"
  let ?sent = "events st
               @ [Info (''Processing batch '' @ show_nat (k + 1) @ ''/''
                    @ show_nat ?n @ ''...''),
                  ClientScan (batch_at deps k) eco]"
  from Suc.hyps have less: "k < ?n" and m: "m = ?n - Suc k" by simp_all
  note step = batch_loop_step [OF less, of env eco st]
  have later: "\<exists>j. k \<le> j \<and> j < ?n
           \<and> outcome_at env eco deps j = Inl err \<and> aborts_scan err
           \<and> (\<forall>l. k \<le> l \<and> l < j \<longrightarrow> \<not> fatal_at env eco deps l)
           \<and> requests (events st')
               = requests (events st) @ map (\<lambda>j. (batch_at deps j, eco)) [k..<Suc j]"
    if run: "batch_loop env eco deps (Suc k * BATCH_SIZE) st1 = (Some err, st')"
      and here: "\<not> fatal_at env eco deps k"
      and req: "requests (events st1) = requests (events st) @ [(batch_at deps k, eco)]"
    for st1
  proof -
    from Suc.hyps(1) [OF m run] obtain j where j: "Suc k \<le> j" "j < ?n"
      "outcome_at env eco deps j = Inl err" "aborts_scan err"
      "\<forall>l. Suc k \<le> l \<and> l < j \<longrightarrow> \<not> fatal_at env eco deps l"
      "requests (events st') = requests (events st1)
          @ map (\<lambda>j. (batch_at deps j, eco)) [Suc k..<Suc j]"
      by blast
    have "\<forall>l. k \<le> l \<and> l < j \<longrightarrow> \<not> fatal_at env eco deps l"
      using j(5) here by (metis Suc_leI le_neq_implies_less)
    moreover have "requests (events st')
        = requests (events st) @ map (\<lambda>j. (batch_at deps j, eco)) [k..<Suc j]"
      using j(1) j(6) req by (simp add: upt_conv_Cons [of k])
    ultimately show ?thesis using j(1-4) by (intro exI [of _ j]) simp
  qed
  show ?case
  proof (cases "outcome_at env eco deps k")
    case (Inr r)
    with Suc.prems step have run: "batch_loop env eco deps (Suc k * BATCH_SIZE)
        (st\<lparr>allPackages := allPackages st @ packages r,
            notFound := (case not_found r of None \<Rightarrow> notFound st | Some nf \<Rightarrow> notFound st @ nf),
            events := ?sent\<rparr>) = (Some err, st')"
      by (simp add: Let_def)
    show ?thesis
      by (rule later [OF run]) (simp_all add: Inr fatal_at_def requests_append)
  next
    case (Inl e)
    show ?thesis
    proof (cases "aborts_scan e")
      case True
      with Inl Suc.prems step have "e = err" "st' = st\<lparr>events := ?sent\<rparr>"
        by (simp_all add: Let_def)
      with Inl True less show ?thesis
        by (intro exI [of _ k]) (auto simp: requests_append)
    next
      case False
      with Inl Suc.prems step have run: "batch_loop env eco deps (Suc k * BATCH_SIZE)
        (st\<lparr>failedBatches := failedBatches st + 1,
            events := ?sent @ [Warning (batch_warning (k + 1) e (batch_at deps k))]\<rparr>)
          = (Some err, st')"
        by (simp add: Let_def)
      show ?thesis
        by (rule later [OF run]) (simp_all add: Inl False fatal_at_def requests_append)
    qed
  qed
qed

subsection \<open>Scans in batches\<close>

lemma scan_read_batches:
  assumes "BATCH_SIZE < length deps"
  shows "\<exists>ev1. requests ev1 = [] \<and> warnings ev1 = [] \<and>
     scan_read env (ReadResult deps eco0 fmt) ov =
       (case batch_loop env (chosen_ecosystem ov eco0) deps 0
               \<lparr>allPackages = [], notFound = [], failedBatches = 0, events = ev1\<rparr> of
          (Some err, st) \<Rightarrow> (Inl err, events st)
        | (None, st) \<Rightarrow>
            (Inr (aggregate st fmt (chosen_ecosystem ov eco0)),
             events st @ map Warning (final_warnings (failedBatches st))))"
proof -
  define ev1 where "ev1 =
     (case ov of
        None \<Rightarrow> []
      | Some e \<Rightarrow> if e = [] then []
                 else [Debug (''Ecosystem overridden to '' @ chosen_ecosystem ov eco0)])
     @ [Info (''Found '' @ show_nat (length deps) @ '' '' @ chosen_ecosystem ov eco0
          @ '' dependencies in '' @ fmt @ '', analyzing health scores...'')]"
  have "requests ev1 = []" "warnings ev1 = []"
    by (simp_all add: ev1_def requests_append warnings_append split: option.splits)
  moreover have "length deps \<noteq> 0" "\<not> length deps \<le> BATCH_SIZE" using assms by auto
  then have "scan_read env (ReadResult deps eco0 fmt) ov =
       (case batch_loop env (chosen_ecosystem ov eco0) deps 0
               \<lparr>allPackages = [], notFound = [], failedBatches = 0, events = ev1\<rparr> of
          (Some err, st) \<Rightarrow> (Inl err, events st)
        | (None, st) \<Rightarrow>
            (Inr (aggregate st fmt (chosen_ecosystem ov eco0)),
             events st @ map Warning (final_warnings (failedBatches st))))"
    by (simp add: scan_read_def Let_def ev1_def final_warnings_def
        split: prod.splits option.splits)
  ultimately show ?thesis by blast
qed

lemma scanDependencies_batches:
  assumes read: "read_deps env basePath includeDev = (Inr (ReadResult deps eco0 fmt), evs)"
    and big: "BATCH_SIZE < length deps"
  shows "\<exists>ev1. requests ev1 = [] \<and> warnings ev1 = [] \<and>
     scanDependencies env apiKey basePath includeDev ov =
       (case batch_loop env (chosen_ecosystem ov eco0) deps 0
               \<lparr>allPackages = [], notFound = [], failedBatches = 0, events = ev1\<rparr> of
          (Some err, st) \<Rightarrow> (Inl err, evs @ events st)
        | (None, st) \<Rightarrow>
            (Inr (aggregate st fmt (chosen_ecosystem ov eco0)),
             evs @ events st @ map Warning (final_warnings (failedBatches st))))"
proof -
  from scan_read_batches [OF big, of env eco0 fmt ov] obtain ev1 where
    ev1: "requests ev1 = []" "warnings ev1 = []"
    and sr: "scan_read env (ReadResult deps eco0 fmt) ov =
       (case batch_loop env (chosen_ecosystem ov eco0) deps 0
               \<lparr>allPackages = [], notFound = [], failedBatches = 0, events = ev1\<rparr> of
          (Some err, st) \<Rightarrow> (Inl err, events st)
        | (None, st) \<Rightarrow>
            (Inr (aggregate st fmt (chosen_ecosystem ov eco0)),
             events st @ map Warning (final_warnings (failedBatches st))))"
    by blast
  show ?thesis
    by (rule exI [of _ ev1])
       (simp add: ev1 scanDependencies_read [OF read] sr split: prod.splits option.splits)
qed

lemma requests_map_Warning: "requests (map Warning ws) = []"
  by (induction ws) simp_all

lemma warnings_map_Warning: "warnings (map Warning ws) = ws"
  by (induction ws) simp_all

text \<open>A scan in batches that returns: no batch ended it, and the result is the
  aggregate of what the successful batches returned.\<close>

lemma batches_returned:
  assumes read: "read_deps env basePath includeDev = (Inr (ReadResult deps eco0 fmt), evs)"
    and big: "BATCH_SIZE < length deps"
    and ret: "scanDependencies env apiKey basePath includeDev ov = (Inr r, log)"
  shows "\<exists>st. r = aggregate st fmt (chosen_ecosystem ov eco0)
     \<and> allPackages st
         = concat (map (packages_at env (chosen_ecosystem ov eco0) deps)
                     [0..<totalBatches (length deps)])
     \<and> notFound st
         = concat (map (not_found_at env (chosen_ecosystem ov eco0) deps)
                     [0..<totalBatches (length deps)])
     \<and> failedBatches st
         = length (filter (failed_at env (chosen_ecosystem ov eco0) deps)
                     [0..<totalBatches (length deps)])
     \<and> requests log
         = map (\<lambda>j. (batch_at deps j, chosen_ecosystem ov eco0)) [0..<totalBatches (length deps)]
     \<and> warnings log
         = concat (map (warnings_at env (chosen_ecosystem ov eco0) deps)
                     [0..<totalBatches (length deps)])
           @ final_warnings (failedBatches st)
     \<and> (\<forall>j. j < totalBatches (length deps)
            \<longrightarrow> \<not> fatal_at env (chosen_ecosystem ov eco0) deps j)"
proof -
  let ?eco = "chosen_ecosystem ov eco0"
  let ?n = "totalBatches (length deps)"
  from scanDependencies_batches [OF read big, of apiKey ov] obtain ev1 where
    ev1: "requests ev1 = []" "warnings ev1 = []"
    and sd: "scanDependencies env apiKey basePath includeDev ov =
       (case batch_loop env ?eco deps 0
               \<lparr>allPackages = [], notFound = [], failedBatches = 0, events = ev1\<rparr> of
          (Some err, st) \<Rightarrow> (Inl err, evs @ events st)
        | (None, st) \<Rightarrow>
            (Inr (aggregate st fmt ?eco),
             evs @ events st @ map Warning (final_warnings (failedBatches st))))"
    by blast
  let ?st0 = "\<lparr>allPackages = [], notFound = [], failedBatches = 0, events = ev1\<rparr>"
  obtain res st where run: "batch_loop env ?eco deps (0 * BATCH_SIZE) ?st0 = (res, st)"
    by (cases "batch_loop env ?eco deps (0 * BATCH_SIZE) ?st0") blast
  with sd ret have none: "res = None"
    by (cases res) simp_all
  with sd ret run have r: "r = aggregate st fmt ?eco"
    and log: "log = evs @ events st @ map Warning (final_warnings (failedBatches st))"
    by simp_all
  from batch_loop_completes [OF run [unfolded none]]
  have ab: "after_batches env ?eco deps 0 ?n ?st0 st"
    and nofatal: "\<forall>j. 0 \<le> j \<and> j < ?n \<longrightarrow> \<not> fatal_at env ?eco deps j"
    by simp_all
  have evs: "requests evs = []" "warnings evs = []"
    using read_deps_requests [of env basePath includeDev]
      read_deps_warnings [of env basePath includeDev] read by simp_all
  show ?thesis
    using ab nofatal
    by (intro exI [of _ st])
       (simp add: r log after_batches_def requests_append warnings_append ev1 evs
          requests_map_Warning warnings_map_Warning)
qed

text \<open>A scan in batches, none of which ends it, returns.\<close>

lemma batches_return:
  assumes read: "read_deps env basePath includeDev = (Inr (ReadResult deps eco0 fmt), evs)"
    and big: "BATCH_SIZE < length deps"
    and ok: "\<forall>j. j < totalBatches (length deps)
               \<longrightarrow> \<not> fatal_at env (chosen_ecosystem ov eco0) deps j"
  shows "\<exists>r log. scanDependencies env apiKey basePath includeDev ov = (Inr r, log)"
proof -
  let ?eco = "chosen_ecosystem ov eco0"
  from scanDependencies_batches [OF read big, of apiKey ov] obtain ev1 where
    sd: "scanDependencies env apiKey basePath includeDev ov =
       (case batch_loop env ?eco deps 0
               \<lparr>allPackages = [], notFound = [], failedBatches = 0, events = ev1\<rparr> of
          (Some err, st) \<Rightarrow> (Inl err, evs @ events st)
        | (None, st) \<Rightarrow>
            (Inr (aggregate st fmt ?eco),
             evs @ events st @ map Warning (final_warnings (failedBatches st))))"
    by blast
  let ?st0 = "\<lparr>allPackages = [], notFound = [], failedBatches = 0, events = ev1\<rparr>"
  obtain res st where run: "batch_loop env ?eco deps (0 * BATCH_SIZE) ?st0 = (res, st)"
    by (cases "batch_loop env ?eco deps (0 * BATCH_SIZE) ?st0") blast
  have "res = None"
  proof (cases res)
    case (Some err)
    from batch_loop_aborts [OF run [unfolded Some]] ok show ?thesis
      by (auto simp: fatal_at_def)
  qed simp
  with sd run show ?thesis by simp
qed

text \<open>A scan in batches ends at the first batch whose error ends it.\<close>

lemma batches_abort:
  assumes read: "read_deps env basePath includeDev = (Inr (ReadResult deps eco0 fmt), evs)"
    and big: "BATCH_SIZE < length deps"
    and j: "j < totalBatches (length deps)"
    and out: "outcome_at env (chosen_ecosystem ov eco0) deps j = Inl err"
    and fatal: "aborts_scan err"
    and before: "\<forall>l. l < j \<longrightarrow> \<not> fatal_at env (chosen_ecosystem ov eco0) deps l"
  shows "\<exists>log. scanDependencies env apiKey basePath includeDev ov = (Inl err, log)
     \<and> requests log = map (\<lambda>k. (batch_at deps k, chosen_ecosystem ov eco0)) [0..<Suc j]"
proof -
  let ?eco = "chosen_ecosystem ov eco0"
  from scanDependencies_batches [OF read big, of apiKey ov] obtain ev1 where
    ev1: "requests ev1 = []"
    and sd: "scanDependencies env apiKey basePath includeDev ov =
       (case batch_loop env ?eco deps 0
               \<lparr>allPackages = [], notFound = [], failedBatches = 0, events = ev1\<rparr> of
          (Some err, st) \<Rightarrow> (Inl err, evs @ events st)
        | (None, st) \<Rightarrow>
            (Inr (aggregate st fmt ?eco),
             evs @ events st @ map Warning (final_warnings (failedBatches st))))"
    by blast
  let ?st0 = "\<lparr>allPackages = [], notFound = [], failedBatches = 0, events = ev1\<rparr>"
  obtain res st where run: "batch_loop env ?eco deps (0 * BATCH_SIZE) ?st0 = (res, st)"
    by (cases "batch_loop env ?eco deps (0 * BATCH_SIZE) ?st0") blast
  have fj: "fatal_at env ?eco deps j" using out fatal by (simp add: fatal_at_def)
  have evs: "requests evs = []"
    using read_deps_requests [of env basePath includeDev] read by simp
  show ?thesis
  proof (cases res)
    case None
    from batch_loop_completes [OF run [unfolded None]] j fj show ?thesis by simp
  next
    case (Some e)
    from batch_loop_aborts [OF run [unfolded Some]] obtain i where
      i: "i < totalBatches (length deps)" "outcome_at env ?eco deps i = Inl e" "aborts_scan e"
        "\<forall>l. l < i \<longrightarrow> \<not> fatal_at env ?eco deps l"
        "requests (events st) = requests ev1 @ map (\<lambda>k. (batch_at deps k, ?eco)) [0..<Suc i]"
      by auto
    have fi: "fatal_at env ?eco deps i" using i(2,3) by (simp add: fatal_at_def)
    have "i = j"
      using before fi i(4) fj by (metis linorder_neqE_nat)
    with i out have "e = err" by simp
    with sd run Some i(5) \<open>i = j\<close> show ?thesis
      by (simp add: requests_append ev1 evs)
  qed
qed

subsection \<open>Aggregates and examples\<close>

lemma aggregate_cong:
  "allPackages st = allPackages st' \<Longrightarrow> notFound st = notFound st'
     \<Longrightarrow> aggregate st fmt eco = aggregate st' fmt eco"
  by (simp add: aggregate_def)

lemma fatal_at_codes:
  "fatal_at env eco deps j \<longleftrightarrow>
     (\<exists>c s m. outcome_at env eco deps j = Inl (ApiClientError c s m)
        \<and> (c = rate_limited \<or> c = unauthorized \<or> c = forbidden))"
proof (cases "outcome_at env eco deps j")
  case (Inl err)
  then show ?thesis by (cases err) (simp_all add: fatal_at_def)
next
  case (Inr r)
  then show ?thesis by (simp add: fatal_at_def)
qed

lemma length_numbered_deps: "length (numbered_deps n) = n"
  by (simp add: numbered_deps_def)

lemma totalBatches_30: "totalBatches 30 = 2"
  by (simp add: totalBatches_def BATCH_SIZE_def)


lemma below_2: "j < (2::nat) \<longleftrightarrow> j = 0 \<or> j = 1"
  by auto

lemma outcome_first_fails:
  "outcome_at (repo_env deps (first_fails err)) eco deps' k
     = (if k = 0 then Inl err else Inr five_low)"
  by (simp add: outcome_at_def repo_env_def first_fails_def)

subsection \<open>Counts, and scans of one request\<close>

lemma count_levels_sum:
  "count_level ''CRITICAL'' pkgs + count_level ''HIGH'' pkgs + count_level ''MEDIUM'' pkgs
     + count_level ''LOW'' pkgs
   = int (length (filter (\<lambda>p. risk_level p \<in> risk_levels) pkgs))"
  by (induction pkgs) (auto simp: count_level_def risk_levels_def)

lemma filter_all: "\<forall>p \<in> set pkgs. P p \<Longrightarrow> filter P pkgs = pkgs"
  by (induction pkgs) simp_all

lemma scan_read_single:
  assumes "0 < length deps" and "length deps \<le> BATCH_SIZE"
  shows "\<exists>ev1. requests ev1 = [] \<and> warnings ev1 = [] \<and>
     scan_read env (ReadResult deps eco0 fmt) ov =
       (case scan env 0 deps (chosen_ecosystem ov eco0) of
          Inr result \<Rightarrow>
            (Inr (with_meta result fmt (chosen_ecosystem ov eco0)),
             ev1 @ [ClientScan deps (chosen_ecosystem ov eco0)])
        | Inl err \<Rightarrow>
            (Inl (rethrow_single err), ev1 @ [ClientScan deps (chosen_ecosystem ov eco0)]))"
proof -
  define ev1 where "ev1 =
     (case ov of
        None \<Rightarrow> []
      | Some e \<Rightarrow> if e = [] then []
                 else [Debug (''Ecosystem overridden to '' @ chosen_ecosystem ov eco0)])
     @ [Info (''Found '' @ show_nat (length deps) @ '' '' @ chosen_ecosystem ov eco0
          @ '' dependencies in '' @ fmt @ '', analyzing health scores...'')]"
  have "requests ev1 = []" "warnings ev1 = []"
    by (simp_all add: ev1_def requests_append warnings_append split: option.splits)
  moreover have "scan_read env (ReadResult deps eco0 fmt) ov =
       (case scan env 0 deps (chosen_ecosystem ov eco0) of
          Inr result \<Rightarrow>
            (Inr (with_meta result fmt (chosen_ecosystem ov eco0)),
             ev1 @ [ClientScan deps (chosen_ecosystem ov eco0)])
        | Inl err \<Rightarrow>
            (Inl (rethrow_single err), ev1 @ [ClientScan deps (chosen_ecosystem ov eco0)]))"
    using assms
    by (simp add: scan_read_def Let_def ev1_def split: sum.splits option.splits)
  ultimately show ?thesis by blast
qed

lemma scanDependencies_single:
  assumes read: "read_deps env basePath includeDev = (Inr (ReadResult deps eco0 fmt), evs)"
    and "0 < length deps" and "length deps \<le> BATCH_SIZE"
  shows "\<exists>log. requests log = [(deps, chosen_ecosystem ov eco0)] \<and> warnings log = [] \<and>
     scanDependencies env apiKey basePath includeDev ov =
       (case scan env 0 deps (chosen_ecosystem ov eco0) of
          Inr result \<Rightarrow> (Inr (with_meta result fmt (chosen_ecosystem ov eco0)), log)
        | Inl err \<Rightarrow> (Inl (rethrow_single err), log))"
proof -
  from scan_read_single [OF assms(2,3), of env eco0 fmt ov] obtain ev1 where
    ev1: "requests ev1 = []" "warnings ev1 = []"
    and sr: "scan_read env (ReadResult deps eco0 fmt) ov =
       (case scan env 0 deps (chosen_ecosystem ov eco0) of
          Inr result \<Rightarrow>
            (Inr (with_meta result fmt (chosen_ecosystem ov eco0)),
             ev1 @ [ClientScan deps (chosen_ecosystem ov eco0)])
        | Inl err \<Rightarrow>
            (Inl (rethrow_single err), ev1 @ [ClientScan deps (chosen_ecosystem ov eco0)]))"
    by blast
  have evs: "requests evs = []" "warnings evs = []"
    using read_deps_requests [of env basePath includeDev]
      read_deps_warnings [of env basePath includeDev] read by simp_all
  show ?thesis
    by (rule exI [of _ "evs @ ev1 @ [ClientScan deps (chosen_ecosystem ov eco0)]"])
       (simp add: scanDependencies_read [OF read] sr requests_append warnings_append ev1 evs
          split: sum.splits)
qed

lemma scanDependencies_empty:
  assumes read: "read_deps env basePath includeDev = (Inr (ReadResult deps eco0 fmt), evs)"
    and "length deps = 0"
  shows "fst (scanDependencies env apiKey basePath includeDev ov)
           = Inr (empty_result fmt (chosen_ecosystem ov eco0))"
  using assms(2)
  by (simp add: scanDependencies_read [OF read] scan_read_def Let_def)

lemma not_api_error_rethrow:
  "\<not> (\<exists>c s m. err = ApiClientError c s m)
     \<Longrightarrow> rethrow_single err = Error (''Failed to scan dependencies: '' @ error_message err)"
  by (cases err) simp_all

subsection \<open>The data-quality counters\<close>

lemma assessment_of_spec:
  "(assessment_of p = ''VERIFIED'') = (spec_quality p = VERIFIED)"
  "(assessment_of p = ''PARTIAL'') = (spec_quality p = PARTIAL)"
  by (auto simp: assessment_of_def spec_quality_def split: option.splits)

lemma quality_of_cases:
  "spec_quality p \<noteq> VERIFIED \<Longrightarrow> spec_quality p \<noteq> PARTIAL \<Longrightarrow> spec_quality p = UNVERIFIED"
  by (cases "spec_quality p") simp_all


lemma quality_step_counts:
  "verifiedCount (quality_step q p)
     = verifiedCount q + (if spec_quality p = VERIFIED then 1 else 0)"
  "partialCount (quality_step q p)
     = partialCount q + (if spec_quality p = PARTIAL then 1 else 0)"
  "unverifiedCount (quality_step q p)
     = unverifiedCount q + (if spec_quality p = UNVERIFIED then 1 else 0)"
  "verifiedRiskCount (quality_step q p)
     = verifiedRiskCount q + (if spec_quality p = VERIFIED \<and> spec_high_risk p then 1 else 0)"
  "unverifiedRiskCount (quality_step q p)
     = unverifiedRiskCount q
       + (if (spec_quality p = PARTIAL \<or> spec_quality p = UNVERIFIED) \<and> spec_high_risk p
          then 1 else 0)"
  by (cases "spec_quality p";
      simp add: quality_step_def assessment_of_spec isHighRisk_def spec_high_risk_def)+

lemma foldl_quality_step:
  "verifiedCount (foldl quality_step q pkgs)
     = verifiedCount q + length (filter (\<lambda>p. spec_quality p = VERIFIED) pkgs)"
  "partialCount (foldl quality_step q pkgs)
     = partialCount q + length (filter (\<lambda>p. spec_quality p = PARTIAL) pkgs)"
  "unverifiedCount (foldl quality_step q pkgs)
     = unverifiedCount q + length (filter (\<lambda>p. spec_quality p = UNVERIFIED) pkgs)"
  "verifiedRiskCount (foldl quality_step q pkgs)
     = verifiedRiskCount q
       + length (filter (\<lambda>p. spec_quality p = VERIFIED \<and> spec_high_risk p) pkgs)"
  "unverifiedRiskCount (foldl quality_step q pkgs)
     = unverifiedRiskCount q
       + length (filter (\<lambda>p. (spec_quality p = PARTIAL \<or> spec_quality p = UNVERIFIED)
                            \<and> spec_high_risk p) pkgs)"
  by (induction pkgs arbitrary: q; simp add: quality_step_counts)+

lemma quality_loop_counts:
  "verifiedCount (quality_loop pkgs) = length (filter (\<lambda>p. spec_quality p = VERIFIED) pkgs)"
  "partialCount (quality_loop pkgs) = length (filter (\<lambda>p. spec_quality p = PARTIAL) pkgs)"
  "unverifiedCount (quality_loop pkgs) = length (filter (\<lambda>p. spec_quality p = UNVERIFIED) pkgs)"
  "verifiedRiskCount (quality_loop pkgs)
     = length (filter (\<lambda>p. spec_quality p = VERIFIED \<and> spec_high_risk p) pkgs)"
  "unverifiedRiskCount (quality_loop pkgs)
     = length (filter (\<lambda>p. (spec_quality p = PARTIAL \<or> spec_quality p = UNVERIFIED)
                          \<and> spec_high_risk p) pkgs)"
  by (simp_all add: quality_loop_def foldl_quality_step)

subsection \<open>Names of different batches\<close>

lemma distinct_concat_upt:
  assumes "\<forall>k. k < n \<longrightarrow> distinct (f k)"
    and "\<forall>j k. j < k \<and> k < n \<longrightarrow> set (f j) \<inter> set (f k) = {}"
  shows "distinct (concat (map f [0..<n]))"
  using assms
proof (induction n)
  case 0
  show ?case by simp
next
  case (Suc n)
  then have "distinct (concat (map f [0..<n]))" by simp
  moreover have "distinct (f n)" using Suc.prems by simp
  moreover have "set (f a) \<inter> set (f n) = {}" if "a < n" for a
    using Suc.prems(2) that by simp
  then have "set (concat (map f [0..<n])) \<inter> set (f n) = {}"
    by (auto simp: disjoint_iff)
  ultimately show ?case by simp
qed

lemma batch_names_disjoint:
  assumes "distinct (map fst deps)" and "j < k"
  shows "fst ` set (batch_at deps j) \<inter> fst ` set (batch_at deps k) = {}"
proof -
  have "j * BATCH_SIZE + BATCH_SIZE \<le> k * BATCH_SIZE"
    using assms(2) mult_le_mono1 [of "Suc j" k BATCH_SIZE] by simp
  then have "set (take (j * BATCH_SIZE + BATCH_SIZE) deps) \<subseteq> set (take (k * BATCH_SIZE) deps)"
    by (rule set_take_subset_set_take)
  moreover have "batch_at deps j
      = drop (j * BATCH_SIZE) (take (j * BATCH_SIZE + BATCH_SIZE) deps)"
    by (simp add: batch_at_def drop_take)
  then have "set (batch_at deps j) \<subseteq> set (take (j * BATCH_SIZE + BATCH_SIZE) deps)"
    by (simp add: set_drop_subset)
  ultimately have a: "set (batch_at deps j) \<subseteq> set (take (k * BATCH_SIZE) deps)"
    by blast
  have b: "set (batch_at deps k) \<subseteq> set (drop (k * BATCH_SIZE) deps)"
    by (simp add: batch_at_def set_take_subset)
  have "distinct (map fst (take (k * BATCH_SIZE) deps) @ map fst (drop (k * BATCH_SIZE) deps))"
    using assms(1) by (simp flip: map_append)
  then have "fst ` set (take (k * BATCH_SIZE) deps) \<inter> fst ` set (drop (k * BATCH_SIZE) deps) = {}"
    by simp
  with a b show ?thesis by blast
qed

subsection \<open>The batches of a mapping\<close>

lemma count_level_append:
  "count_level level (xs @ ys) = count_level level xs + count_level level ys"
  by (simp add: count_level_def)

lemma concat_batches_take:
  "concat (map (batch_at deps) [0..<m]) = take (m * BATCH_SIZE) deps"
  by (induction m) (simp_all add: batch_at_def take_add Suc_batch del: mult_Suc)

lemma concat_batches:
  "concat (map (batch_at deps) [0..<totalBatches (length deps)]) = deps"
proof -
  have "length deps \<le> totalBatches (length deps) * BATCH_SIZE"
    unfolding totalBatches_def BATCH_SIZE_def by arith
  then show ?thesis by (simp add: concat_batches_take)
qed

lemma batch_sizes:
  assumes "k < totalBatches (length deps)"
  shows "batch_at deps k \<noteq> []" and "length (batch_at deps k) \<le> BATCH_SIZE"
    and "Suc k < totalBatches (length deps) \<Longrightarrow> length (batch_at deps k) = BATCH_SIZE"
proof -
  from assms have less: "k * BATCH_SIZE < length deps"
    by (simp add: batch_index_less)
  then show "batch_at deps k \<noteq> []"
    by (simp add: batch_at_def BATCH_SIZE_def)
  show "length (batch_at deps k) \<le> BATCH_SIZE"
    by (simp add: batch_at_def)
  show "length (batch_at deps k) = BATCH_SIZE" if "Suc k < totalBatches (length deps)"
  proof -
    from that have "Suc k * BATCH_SIZE < length deps"
      by (simp only: batch_index_less)
    then show ?thesis by (simp add: batch_at_def)
  qed
qed

text \<open>A scan in batches that throws has requested the batches up to one of them.\<close>

lemma batches_thrown:
  assumes read: "read_deps env basePath includeDev = (Inr (ReadResult deps eco0 fmt), evs)"
    and big: "BATCH_SIZE < length deps"
    and thr: "scanDependencies env apiKey basePath includeDev ov = (Inl err, log)"
  shows "\<exists>j. j < totalBatches (length deps)
     \<and> requests log = map (\<lambda>k. (batch_at deps k, chosen_ecosystem ov eco0)) [0..<Suc j]"
proof -
  let ?eco = "chosen_ecosystem ov eco0"
  from scanDependencies_batches [OF read big, of apiKey ov] obtain ev1 where
    ev1: "requests ev1 = []"
    and sd: "scanDependencies env apiKey basePath includeDev ov =
       (case batch_loop env ?eco deps 0
               \<lparr>allPackages = [], notFound = [], failedBatches = 0, events = ev1\<rparr> of
          (Some err, st) \<Rightarrow> (Inl err, evs @ events st)
        | (None, st) \<Rightarrow>
            (Inr (aggregate st fmt ?eco),
             evs @ events st @ map Warning (final_warnings (failedBatches st))))"
    by blast
  let ?st0 = "\<lparr>allPackages = [], notFound = [], failedBatches = 0, events = ev1\<rparr>"
  obtain res st where run: "batch_loop env ?eco deps (0 * BATCH_SIZE) ?st0 = (res, st)"
    by (cases "batch_loop env ?eco deps (0 * BATCH_SIZE) ?st0") blast
  have evs: "requests evs = []"
    using read_deps_requests [of env basePath includeDev] read by simp
  have "res \<noteq> None"
  proof
    assume "res = None"
    with sd run have "fst (scanDependencies env apiKey basePath includeDev ov)
        = Inr (aggregate st fmt ?eco)"
      by simp
    with thr show False by simp
  qed
  then obtain e where some: "res = Some e" by auto
  with sd run have "scanDependencies env apiKey basePath includeDev ov = (Inl e, evs @ events st)"
    by simp
  with thr have log: "log = evs @ events st" by simp
  from batch_loop_aborts [OF run [unfolded some]] obtain j where
    "j < totalBatches (length deps)"
    "requests (events st) = requests ev1 @ map (\<lambda>k. (batch_at deps k, ?eco)) [0..<Suc j]"
    by auto
  then show ?thesis
    by (intro exI [of _ j]) (simp add: log requests_append ev1 evs)
qed


subsection \<open>Relative paths\<close>

lemma strip_common_prefix: "fst (strip_common xs ys) = [] \<longleftrightarrow> prefix xs ys"
  by (induction xs ys rule: strip_common.induct) auto

lemma join_starts: "\<exists>t. join sep (x # xs) = x @ t"
  by (cases xs) simp_all

lemma relative_outside:
  assumes "\<not> prefix (resolve_segments wd from) (resolve_segments wd to)"
  shows "startsWith (relative wd from to) ''..''"
proof -
  obtain up down where sc: "strip_common (resolve_segments wd from) (resolve_segments wd to)
      = (up, down)"
    by (cases "strip_common (resolve_segments wd from) (resolve_segments wd to)") blast
  with assms strip_common_prefix [of "resolve_segments wd from" "resolve_segments wd to"]
  have "up \<noteq> []" by simp
  then obtain u us where "up = u # us" by (cases up) simp_all
  then have "replicate (length up) ''..'' @ down = ''..'' # (replicate (length us) ''..'' @ down)"
    by simp
  with join_starts [of "''/''" "''..''" "replicate (length us) ''..'' @ down"]
  obtain t where "join ''/'' (replicate (length up) ''..'' @ down) = ''..'' @ t"
    by auto
  with sc show ?thesis
    by (simp add: relative_def startsWith_def)
qed

subsection \<open>Attempts of the executor\<close>

lemma retryable_classify:
  "retryable (classify f) \<longleftrightarrow>
     f = NoResponse \<or> f = TimeoutAbort
     \<or> (\<exists>s. f = HttpStatus s \<and> (s = 429 \<or> (500 \<le> s \<and> s \<le> 599)))"
  by (cases f) auto

lemma attempts_from_persistent:
  assumes "\<forall>k. \<exists>f msg. fetch k = Failed f msg \<and> retryable (classify f)"
  shows "\<exists>f msg. fetch (n + left) = Failed f msg
     \<and> attempts_from fetch n left
         = (Inl (ApiClientError (classify f) (failure_status f) msg), Suc (n + left))"
proof (induction left arbitrary: n)
  case 0
  from assms obtain f msg where "fetch n = Failed f msg" by blast
  then show ?case by (simp add: attempts_from.simps [of fetch n 0])
next
  case (Suc left)
  from assms obtain f msg where f: "fetch n = Failed f msg" "retryable (classify f)" by blast
  from Suc.IH [of "Suc n"] obtain g m where
    "fetch (Suc n + left) = Failed g m"
    "attempts_from fetch (Suc n) left
       = (Inl (ApiClientError (classify g) (failure_status g) m), Suc (Suc n + left))"
    by blast
  with f show ?case by (simp add: attempts_from.simps [of fetch n "Suc left"])
qed

subsection \<open>The aggregation invariant\<close>

text \<open>
  C1 (amended). For a result that scanDependencies returns: when the mapping is empty or
  has more than 25 entries, total is the length of the package list, and the sum of
  critical, high, medium and low is the number of packages whose risk level is one of
  CRITICAL, HIGH, MEDIUM and LOW, so it is total whenever every package has one of
  these levels. When the mapping has 1 to 25 entries, total, the four counts and the
  package list are those of the answer to the single request, unchanged: the invariant
  holds of the result exactly when it holds of that answer.
\<close>

theorem aggregation_invariant:
  assumes read: "read_deps env basePath includeDev = (Inr (ReadResult deps eco0 fmt), evs)"
    and ret: "scanDependencies env apiKey basePath includeDev ov = (Inr r, log)"
  shows "(length deps = 0 \<or> BATCH_SIZE < length deps \<longrightarrow>
            total r = int (length (packages r))
            \<and> critical r + high r + medium r + low r
                = int (length (filter (\<lambda>p. risk_level p \<in> risk_levels) (packages r)))
            \<and> ((\<forall>p \<in> set (packages r). risk_level p \<in> risk_levels)
                 \<longrightarrow> total r = critical r + high r + medium r + low r))
       \<and> (0 < length deps \<and> length deps \<le> BATCH_SIZE \<longrightarrow>
            (\<exists>res. scan env 0 deps (chosen_ecosystem ov eco0) = Inr res
               \<and> total r = total res \<and> critical r = critical res \<and> high r = high res
               \<and> medium r = medium res \<and> low r = low res \<and> packages r = packages res))"
proof (intro conjI impI)
  assume "length deps = 0 \<or> BATCH_SIZE < length deps"
  then have counts: "total r = int (length (packages r))
      \<and> critical r = count_level ''CRITICAL'' (packages r)
      \<and> high r = count_level ''HIGH'' (packages r)
      \<and> medium r = count_level ''MEDIUM'' (packages r)
      \<and> low r = count_level ''LOW'' (packages r)"
  proof
    assume "length deps = 0"
    from scanDependencies_empty [OF read this, of apiKey ov] ret
    show ?thesis by (simp add: empty_result_def count_level_def)
  next
    assume "BATCH_SIZE < length deps"
    from batches_returned [OF read this ret] obtain st
      where "r = aggregate st fmt (chosen_ecosystem ov eco0)" by blast
    then show ?thesis by (simp add: aggregate_def Let_def)
  qed
  then show "total r = int (length (packages r))" by simp
  from counts show sum: "critical r + high r + medium r + low r
      = int (length (filter (\<lambda>p. risk_level p \<in> risk_levels) (packages r)))"
    using count_levels_sum [of "packages r"] by simp
  show "total r = critical r + high r + medium r + low r"
    if "\<forall>p \<in> set (packages r). risk_level p \<in> risk_levels"
    using counts sum filter_all [OF that] by simp
next
  assume small: "0 < length deps \<and> length deps \<le> BATCH_SIZE"
  from scanDependencies_single [OF read, of ov apiKey] small obtain log' where
    sd: "scanDependencies env apiKey basePath includeDev ov =
       (case scan env 0 deps (chosen_ecosystem ov eco0) of
          Inr result \<Rightarrow> (Inr (with_meta result fmt (chosen_ecosystem ov eco0)), log')
        | Inl err \<Rightarrow> (Inl (rethrow_single err), log'))"
    by blast
  show "\<exists>res. scan env 0 deps (chosen_ecosystem ov eco0) = Inr res
               \<and> total r = total res \<and> critical r = critical res \<and> high r = high res
               \<and> medium r = medium res \<and> low r = low res \<and> packages r = packages res"
  proof (cases "scan env 0 deps (chosen_ecosystem ov eco0)")
    case (Inl err)
    with sd ret show ?thesis by simp
  next
    case (Inr res)
    with sd ret have "r = with_meta res fmt (chosen_ecosystem ov eco0)" by simp
    with Inr show ?thesis by (simp add: with_meta_def)
  qed
qed

theorem aggregation_invariant_counterexample:
  "fst (scanDependencies (repo_env (numbered_deps 20) (always_answers twenty_low_no_packages))
          ''test-key'' ''/repo'' True None)
     = Inr (with_meta twenty_low_no_packages ''package.json'' ''npm'')
   \<and> total (with_meta twenty_low_no_packages ''package.json'' ''npm'') = 20
   \<and> length (packages (with_meta twenty_low_no_packages ''package.json'' ''npm'')) = 0"
  by code_simp


theorem aggregation_invariant_witness:
  "(\<exists>r log. scanDependencies
        (repo_env (numbered_deps 30)
           (first_fails (ApiClientError server_error (Some 500) ''Internal Server Error'')))
        ''test-key'' ''/repo'' True None = (Inr r, log)
      \<and> BATCH_SIZE < length (numbered_deps 30)
      \<and> total r = int (length (packages r))
      \<and> critical r + high r + medium r + low r
          = int (length (filter (\<lambda>p. risk_level p \<in> risk_levels) (packages r)))
      \<and> total r = critical r + high r + medium r + low r)
   \<and> (\<exists>r log res. scanDependencies
        (repo_env (numbered_deps 20) (always_answers twenty_low_no_packages))
        ''test-key'' ''/repo'' True None = (Inr r, log)
      \<and> 0 < length (numbered_deps 20) \<and> length (numbered_deps 20) \<le> BATCH_SIZE
      \<and> scan (repo_env (numbered_deps 20) (always_answers twenty_low_no_packages)) 0
           (numbered_deps 20) (chosen_ecosystem None ''npm'') = Inr res
      \<and> total r = total res \<and> critical r = critical res \<and> high r = high res
      \<and> medium r = medium res \<and> low r = low res \<and> packages r = packages res)"
proof -
  let ?e30 = "repo_env (numbered_deps 30)
           (first_fails (ApiClientError server_error (Some 500) ''Internal Server Error''))"
  let ?e20 = "repo_env (numbered_deps 20) (always_answers twenty_low_no_packages)"
  let ?r30 = "with_meta
                (five_low\<lparr>data_quality_counts :=
                     Some \<lparr>verified_count = 0, partial_count = 0, unverified_count = 5\<rparr>,
                   verified_risk_count := Some 0, unverified_risk_count := Some 0\<rparr>)
                ''package.json'' ''npm''"
  have "fst (scanDependencies ?e30 ''test-key'' ''/repo'' True None) = Inr ?r30"
    by code_simp
  then obtain log30 where
    ret30: "scanDependencies ?e30 ''test-key'' ''/repo'' True None = (Inr ?r30, log30)"
    by (cases "scanDependencies ?e30 ''test-key'' ''/repo'' True None") simp
  have "fst (scanDependencies ?e20 ''test-key'' ''/repo'' True None)
      = Inr (with_meta twenty_low_no_packages ''package.json'' ''npm'')"
    by code_simp
  then obtain log20 where
    ret20: "scanDependencies ?e20 ''test-key'' ''/repo'' True None
      = (Inr (with_meta twenty_low_no_packages ''package.json'' ''npm''), log20)"
    by (cases "scanDependencies ?e20 ''test-key'' ''/repo'' True None") simp
  have big: "BATCH_SIZE < length (numbered_deps 30)"
    and small: "0 < length (numbered_deps 20)" "length (numbered_deps 20) \<le> BATCH_SIZE"
    by (simp_all add: length_numbered_deps BATCH_SIZE_def)
  have levels: "\<forall>p \<in> set (packages ?r30). risk_level p \<in> risk_levels"
    by (simp add: with_meta_def five_low_def low_package_def risk_levels_def)
  from aggregation_invariant [OF read_deps_repo_env ret30] big levels
  have "total ?r30 = int (length (packages ?r30))
      \<and> critical ?r30 + high ?r30 + medium ?r30 + low ?r30
          = int (length (filter (\<lambda>p. risk_level p \<in> risk_levels) (packages ?r30)))
      \<and> total ?r30 = critical ?r30 + high ?r30 + medium ?r30 + low ?r30"
    by blast
  with ret30 big have first: "\<exists>r log. scanDependencies ?e30 ''test-key'' ''/repo'' True None = (Inr r, log)
      \<and> BATCH_SIZE < length (numbered_deps 30)
      \<and> total r = int (length (packages r))
      \<and> critical r + high r + medium r + low r
          = int (length (filter (\<lambda>p. risk_level p \<in> risk_levels) (packages r)))
      \<and> total r = critical r + high r + medium r + low r"
    by blast
  from aggregation_invariant [OF read_deps_repo_env ret20] small
  have "\<exists>res. scan ?e20 0 (numbered_deps 20) (chosen_ecosystem None ''npm'') = Inr res
      \<and> total (with_meta twenty_low_no_packages ''package.json'' ''npm'') = total res
      \<and> critical (with_meta twenty_low_no_packages ''package.json'' ''npm'') = critical res
      \<and> high (with_meta twenty_low_no_packages ''package.json'' ''npm'') = high res
      \<and> medium (with_meta twenty_low_no_packages ''package.json'' ''npm'') = medium res
      \<and> low (with_meta twenty_low_no_packages ''package.json'' ''npm'') = low res
      \<and> packages (with_meta twenty_low_no_packages ''package.json'' ''npm'') = packages res"
    by blast
  with ret20 small have second: "\<exists>r log res. scanDependencies ?e20 ''test-key'' ''/repo'' True None = (Inr r, log)
      \<and> 0 < length (numbered_deps 20) \<and> length (numbered_deps 20) \<le> BATCH_SIZE
      \<and> scan ?e20 0 (numbered_deps 20) (chosen_ecosystem None ''npm'') = Inr res
      \<and> total r = total res \<and> critical r = critical res \<and> high r = high res
      \<and> medium r = medium res \<and> low r = low res \<and> packages r = packages res"
    by blast
  from first second show ?thesis by (rule conjI)
qed

subsection \<open>Failures of a batch\<close>

text \<open>
  C2. In a scan of more than 25 dependencies, a batch whose request fails with an
  \<^verbatim>\<open>ApiClientError\<close> of code \<^verbatim>\<open>rate_limited\<close>, \<^verbatim>\<open>unauthorized\<close> or
  \<^verbatim>\<open>forbidden\<close> ends the scan: scanDependencies throws that very error and the
  requests made are those of the batches up to it, none later. These are the only
  failures that end it. When no batch fails that way, scanDependencies returns (it does
  not throw) the aggregate of what the successful batches returned, a value in which no
  field tells of a failure; every batch has been requested, each failed batch has its
  warning, and a last warning gives the number of failed batches when it is not 0.
\<close>

theorem batch_failure_policy:
  assumes read: "read_deps env basePath includeDev = (Inr (ReadResult deps eco0 fmt), evs)"
    and big: "BATCH_SIZE < length deps"
    and eco: "eco = chosen_ecosystem ov eco0"
  shows "(\<forall>j. fatal_at env eco deps j \<longleftrightarrow>
            (\<exists>c s m. outcome_at env eco deps j = Inl (ApiClientError c s m)
               \<and> (c = rate_limited \<or> c = unauthorized \<or> c = forbidden)))
     \<and> (\<forall>j c s m. j < totalBatches (length deps)
            \<and> outcome_at env eco deps j = Inl (ApiClientError c s m)
            \<and> (c = rate_limited \<or> c = unauthorized \<or> c = forbidden)
            \<and> (\<forall>l. l < j \<longrightarrow> \<not> fatal_at env eco deps l)
          \<longrightarrow> (\<exists>log. scanDependencies env apiKey basePath includeDev ov
                         = (Inl (ApiClientError c s m), log)
                 \<and> requests log = map (\<lambda>k. (batch_at deps k, eco)) [0..<Suc j]))
     \<and> ((\<forall>j. j < totalBatches (length deps) \<longrightarrow> \<not> fatal_at env eco deps j)
          \<longrightarrow> (\<exists>log. scanDependencies env apiKey basePath includeDev ov
                         = (Inr (aggregate (merged env eco deps) fmt eco), log)
                 \<and> requests log
                     = map (\<lambda>k. (batch_at deps k, eco)) [0..<totalBatches (length deps)]
                 \<and> warnings log
                     = concat (map (warnings_at env eco deps) [0..<totalBatches (length deps)])
                       @ final_warnings (failed_count env eco deps)))"
proof (intro conjI allI impI)
  fix j
  show "fatal_at env eco deps j \<longleftrightarrow>
            (\<exists>c s m. outcome_at env eco deps j = Inl (ApiClientError c s m)
               \<and> (c = rate_limited \<or> c = unauthorized \<or> c = forbidden))"
    by (rule fatal_at_codes)
next
  fix j c s m
  assume h: "j < totalBatches (length deps)
            \<and> outcome_at env eco deps j = Inl (ApiClientError c s m)
            \<and> (c = rate_limited \<or> c = unauthorized \<or> c = forbidden)
            \<and> (\<forall>l. l < j \<longrightarrow> \<not> fatal_at env eco deps l)"
  then have "aborts_scan (ApiClientError c s m)" by auto
  with h batches_abort [OF read big, of j ov "ApiClientError c s m" apiKey]
  show "\<exists>log. scanDependencies env apiKey basePath includeDev ov
                         = (Inl (ApiClientError c s m), log)
                 \<and> requests log = map (\<lambda>k. (batch_at deps k, eco)) [0..<Suc j]"
    by (simp add: eco)
next
  assume ok: "\<forall>j. j < totalBatches (length deps) \<longrightarrow> \<not> fatal_at env eco deps j"
  with batches_return [OF read big, of ov apiKey] obtain r log where
    ret: "scanDependencies env apiKey basePath includeDev ov = (Inr r, log)"
    by (auto simp: eco)
  from batches_returned [OF read big ret] obtain st where
    st: "r = aggregate st fmt eco"
      "allPackages st = allPackages (merged env eco deps)"
      "notFound st = notFound (merged env eco deps)"
      "failedBatches st = failed_count env eco deps"
      "requests log = map (\<lambda>j. (batch_at deps j, eco)) [0..<totalBatches (length deps)]"
      "warnings log = concat (map (warnings_at env eco deps) [0..<totalBatches (length deps)])
           @ final_warnings (failedBatches st)"
    by (auto simp: eco merged_def failed_count_def)
  have "r = aggregate (merged env eco deps) fmt eco"
    using st(1-3) aggregate_cong by blast
  with ret st(4-6)
  show "\<exists>log. scanDependencies env apiKey basePath includeDev ov
                         = (Inr (aggregate (merged env eco deps) fmt eco), log)
                 \<and> requests log
                     = map (\<lambda>k. (batch_at deps k, eco)) [0..<totalBatches (length deps)]
                 \<and> warnings log
                     = concat (map (warnings_at env eco deps) [0..<totalBatches (length deps)])
                       @ final_warnings (failed_count env eco deps)"
    by simp
qed

theorem batch_failure_policy_witness:
  "(\<exists>log. scanDependencies
             (repo_env (numbered_deps 30)
                (first_fails (ApiClientError rate_limited (Some 429) ''Too Many Requests'')))
             ''test-key'' ''/repo'' True None
           = (Inl (ApiClientError rate_limited (Some 429) ''Too Many Requests''), log)
         \<and> requests log = [(batch_at (numbered_deps 30) 0, ''npm'')])
   \<and> (\<exists>log. scanDependencies
             (repo_env (numbered_deps 30)
                (first_fails (ApiClientError server_error (Some 500) ''Internal Server Error'')))
             ''test-key'' ''/repo'' True None
           = (Inr (with_meta
                     (five_low\<lparr>data_quality_counts :=
                          Some \<lparr>verified_count = 0, partial_count = 0, unverified_count = 5\<rparr>,
                        verified_risk_count := Some 0, unverified_risk_count := Some 0\<rparr>)
                     ''package.json'' ''npm''), log)
         \<and> requests log
             = [(batch_at (numbered_deps 30) 0, ''npm''), (batch_at (numbered_deps 30) 1, ''npm'')]
         \<and> warnings log
             = [''Batch 1 failed: Internal Server Error. Packages: pkg-0, pkg-1, pkg-2, pkg-3, pkg-4 and 20 more'',
                ''1 batch(es) failed. Results may be incomplete.''])"
proof -
  let ?rl = "ApiClientError rate_limited (Some 429) ''Too Many Requests''"
  let ?se = "ApiClientError server_error (Some 500) ''Internal Server Error''"
  let ?d = "numbered_deps 30"
  have big: "BATCH_SIZE < length ?d"
    by (simp add: length_numbered_deps BATCH_SIZE_def)
  have eco: "''npm'' = chosen_ecosystem None ''npm''"
    by (simp add: chosen_ecosystem_def)
  have n: "totalBatches (length ?d) = 2"
    by (simp add: length_numbered_deps totalBatches_30)
  have upt2: "[0..<2] = [0, Suc 0]"
    by (simp add: numeral_2_eq_2)
  note rl = batch_failure_policy [where apiKey = "''test-key''",
      OF read_deps_repo_env [of ?d "first_fails ?rl" True] big eco]
  note se = batch_failure_policy [where apiKey = "''test-key''",
      OF read_deps_repo_env [of ?d "first_fails ?se" True] big eco]
  have nofatal: "\<forall>j. j < totalBatches (length ?d)
      \<longrightarrow> \<not> fatal_at (repo_env ?d (first_fails ?se)) ''npm'' ?d j"
    by (simp add: fatal_at_def outcome_first_fails)
  have agg: "aggregate (merged (repo_env ?d (first_fails ?se)) ''npm'' ?d) ''package.json'' ''npm''
       = with_meta
           (five_low\<lparr>data_quality_counts :=
                Some \<lparr>verified_count = 0, partial_count = 0, unverified_count = 5\<rparr>,
              verified_risk_count := Some 0, unverified_risk_count := Some 0\<rparr>)
           ''package.json'' ''npm''"
    by code_simp
  have warn: "concat (map (warnings_at (repo_env ?d (first_fails ?se)) ''npm'' ?d)
         [0..<totalBatches (length ?d)])
       @ final_warnings (failed_count (repo_env ?d (first_fails ?se)) ''npm'' ?d)
     = [''Batch 1 failed: Internal Server Error. Packages: pkg-0, pkg-1, pkg-2, pkg-3, pkg-4 and 20 more'',
        ''1 batch(es) failed. Results may be incomplete.'']"
    by code_simp
  from rl [THEN conjunct2, THEN conjunct1, rule_format,
      of 0 rate_limited "Some 429" "''Too Many Requests''"]
  have "\<exists>log. scanDependencies (repo_env ?d (first_fails ?rl))
             ''test-key'' ''/repo'' True None = (Inl ?rl, log)
         \<and> requests log = [(batch_at ?d 0, ''npm'')]"
    by (simp add: n outcome_first_fails)
  moreover from se [THEN conjunct2, THEN conjunct2, rule_format] nofatal have "\<exists>log. scanDependencies (repo_env ?d (first_fails ?se))
             ''test-key'' ''/repo'' True None
           = (Inr (aggregate (merged (repo_env ?d (first_fails ?se)) ''npm'' ?d)
                     ''package.json'' ''npm''), log)
         \<and> requests log = [(batch_at ?d 0, ''npm''), (batch_at ?d 1, ''npm'')]
         \<and> warnings log
             = concat (map (warnings_at (repo_env ?d (first_fails ?se)) ''npm'' ?d)
                 [0..<totalBatches (length ?d)])
               @ final_warnings (failed_count (repo_env ?d (first_fails ?se)) ''npm'' ?d)"
    by (simp add: n upt2)
  ultimately show ?thesis
    by (simp only: agg warn) 
qed

subsection \<open>The number of attempts\<close>

text \<open>
  C3. With a maximum of 3 retries, when every attempt fails in a retryable way (a 429, a
  5xx, no response, or a timeout), the executor makes exactly 4 attempts and fails with
  the \<^verbatim>\<open>ApiClientError\<close> of the last one; in general it makes one attempt more than
  the maximum of retries. When the first attempt fails with another status (400, 401,
  403, 404 or any other 4xx), it makes exactly 1 attempt and fails with that status's
  \<^verbatim>\<open>ApiClientError\<close>.
\<close>

theorem retry_count:
  "(\<forall>f. retryable (classify f) \<longleftrightarrow>
        f = NoResponse \<or> f = TimeoutAbort
        \<or> (\<exists>s. f = HttpStatus s \<and> (s = 429 \<or> (500 \<le> s \<and> s \<le> 599))))
   \<and> ((\<forall>k. \<exists>f msg. fetch k = Failed f msg \<and> retryable (classify f)) \<longrightarrow>
        (\<exists>f msg. fetch 3 = Failed f msg
           \<and> execute 3 fetch = (Inl (ApiClientError (classify f) (failure_status f) msg), 4))
        \<and> (\<forall>maxRetries. snd (execute maxRetries fetch) = maxRetries + 1))
   \<and> (\<forall>s msg maxRetries. fetch 0 = Failed (HttpStatus s) msg
          \<and> 400 \<le> s \<and> s \<le> 499 \<and> s \<noteq> 429 \<longrightarrow>
        execute maxRetries fetch
          = (Inl (ApiClientError (classify (HttpStatus s)) (Some s) msg), 1))"
proof (intro conjI allI impI)
  fix f
  show "retryable (classify f) \<longleftrightarrow>
        f = NoResponse \<or> f = TimeoutAbort
        \<or> (\<exists>s. f = HttpStatus s \<and> (s = 429 \<or> (500 \<le> s \<and> s \<le> 599)))"
    by (rule retryable_classify)
next
  assume h: "\<forall>k. \<exists>f msg. fetch k = Failed f msg \<and> retryable (classify f)"
  from attempts_from_persistent [OF h, of 0 3]
  show "\<exists>f msg. fetch 3 = Failed f msg
           \<and> execute 3 fetch = (Inl (ApiClientError (classify f) (failure_status f) msg), 4)"
    by (simp add: execute_def)
  fix maxRetries
  from attempts_from_persistent [OF h, of 0 maxRetries]
  show "snd (execute maxRetries fetch) = maxRetries + 1"
    by (auto simp: execute_def)
next
  fix s msg maxRetries
  assume h: "fetch 0 = Failed (HttpStatus s) msg \<and> 400 \<le> s \<and> s \<le> 499 \<and> s \<noteq> 429"
  then have "\<not> retryable (classify (HttpStatus s))"
    by (simp add: retryable_classify)
  with h show "execute maxRetries fetch
          = (Inl (ApiClientError (classify (HttpStatus s)) (Some s) msg), 1)"
    by (simp add: execute_def attempts_from.simps [of fetch 0 maxRetries] split: nat.splits)
qed

theorem retry_count_witness:
  "execute 3 (always_fails (HttpStatus 500) ''Internal Server Error'')
     = (Inl (ApiClientError server_error (Some 500) ''Internal Server Error''), 4)
   \<and> execute 3 (always_fails NoResponse ''Network failure'')
     = (Inl (ApiClientError network_error None ''Network failure''), 4)
   \<and> execute 3 (always_fails (HttpStatus 404) ''Package not found'')
     = (Inl (ApiClientError not_found_error (Some 404) ''Package not found''), 1)
   \<and> execute 3 (always_fails (HttpStatus 418) ''I'm a teapot'')
     = (Inl (ApiClientError unknown_error (Some 418) ''I'm a teapot''), 1)"
proof -
  have p: "\<forall>k. \<exists>f msg. always_fails g m k = Failed f msg \<and> retryable (classify f)"
    if "retryable (classify g)" for g m
    using that by (simp add: always_fails_def)
  have "execute 3 (always_fails (HttpStatus 500) ''Internal Server Error'')
     = (Inl (ApiClientError server_error (Some 500) ''Internal Server Error''), 4)"
    using retry_count [of "always_fails (HttpStatus 500) ''Internal Server Error''"]
      p [of "HttpStatus 500" "''Internal Server Error''"]
    by (auto simp: always_fails_def)
  moreover have "execute 3 (always_fails NoResponse ''Network failure'')
     = (Inl (ApiClientError network_error None ''Network failure''), 4)"
    using retry_count [of "always_fails NoResponse ''Network failure''"]
      p [of NoResponse "''Network failure''"]
    by (auto simp: always_fails_def)
  moreover have "execute 3 (always_fails (HttpStatus 404) ''Package not found'')
     = (Inl (ApiClientError not_found_error (Some 404) ''Package not found''), 1)"
    using retry_count [of "always_fails (HttpStatus 404) ''Package not found''",
        THEN conjunct2, THEN conjunct2, rule_format, of 404 "''Package not found''" 3]
    by (simp add: always_fails_def)
  moreover have "execute 3 (always_fails (HttpStatus 418) ''I'm a teapot'')
     = (Inl (ApiClientError unknown_error (Some 418) ''I'm a teapot''), 1)"
    using retry_count [of "always_fails (HttpStatus 418) ''I'm a teapot''",
        THEN conjunct2, THEN conjunct2, rule_format, of 418 "''I'm a teapot''" 3]
    by (simp add: always_fails_def)
  ultimately show ?thesis by blast
qed

subsection \<open>The classifier\<close>

text \<open>
  C4. The classifier gives every failure exactly one code: 400 invalid_request, 401
  unauthorized, 403 forbidden, 404 not_found, 429 rate_limited, every 5xx server_error, no
  response network_error, a timeout abort timeout, and every other 4xx (418 for one)
  unknown_error. It is a total function, so it cannot throw.
\<close>

theorem classifier_total:
  "classify (HttpStatus 400) = invalid_request
   \<and> classify (HttpStatus 401) = unauthorized
   \<and> classify (HttpStatus 403) = forbidden
   \<and> classify (HttpStatus 404) = not_found_error
   \<and> classify (HttpStatus 429) = rate_limited
   \<and> (\<forall>s. 500 \<le> s \<and> s \<le> 599 \<longrightarrow> classify (HttpStatus s) = server_error)
   \<and> classify NoResponse = network_error
   \<and> classify TimeoutAbort = timeout
   \<and> (\<forall>s. 400 \<le> s \<and> s \<le> 499 \<and> s \<noteq> 400 \<and> s \<noteq> 401 \<and> s \<noteq> 403 \<and> s \<noteq> 404 \<and> s \<noteq> 429
          \<longrightarrow> classify (HttpStatus s) = unknown_error)
   \<and> (\<forall>f. \<exists>!c. classify f = c)"
  by simp

theorem classifier_total_witness:
  "classify (HttpStatus 500) = server_error
   \<and> classify (HttpStatus 502) = server_error
   \<and> classify (HttpStatus 503) = server_error
   \<and> classify (HttpStatus 418) = unknown_error"
  using classifier_total by simp

subsection \<open>Batches in order\<close>

text \<open>
  C5. For a mapping of more than 25 entries: its batches, in order, make up the mapping;
  every batch is non-empty and has at most 25 entries, and every batch but the last
  has exactly 25. The requests scanDependencies makes are those of the batches, one
  after the other from the first, up to some batch, and of all the batches when it
  returns. The result then holds the packages of the successful batches in batch
  order, and its total and severity counts are counted on this merged list, whatever
  subtotals the answers carried. With 30 entries, a first answer of 25 packages (1
  CRITICAL, 2 HIGH, 10 MEDIUM, 12 LOW) and a second of 5 packages (1 HIGH, 2 MEDIUM, 2
  LOW), two requests are made and the result has total 30, critical 1, high 3, medium
  12 and low 14.
\<close>

theorem batches_in_order:
  assumes read: "read_deps env basePath includeDev = (Inr (ReadResult deps eco0 fmt), evs)"
    and big: "BATCH_SIZE < length deps"
    and eco: "eco = chosen_ecosystem ov eco0"
  shows "concat (map (batch_at deps) [0..<totalBatches (length deps)]) = deps
     \<and> (\<forall>k. k < totalBatches (length deps)
           \<longrightarrow> batch_at deps k \<noteq> [] \<and> length (batch_at deps k) \<le> 25
               \<and> (Suc k < totalBatches (length deps) \<longrightarrow> length (batch_at deps k) = 25))
     \<and> (\<exists>j. j \<le> totalBatches (length deps)
           \<and> requests (snd (scanDependencies env apiKey basePath includeDev ov))
               = map (\<lambda>k. (batch_at deps k, eco)) [0..<j])
     \<and> (\<forall>r log. scanDependencies env apiKey basePath includeDev ov = (Inr r, log)
           \<longrightarrow> requests log = map (\<lambda>k. (batch_at deps k, eco)) [0..<totalBatches (length deps)]
               \<and> packages r
                   = concat (map (packages_at env eco deps) [0..<totalBatches (length deps)])
               \<and> total r = int (length (packages r))
               \<and> critical r = count_level ''CRITICAL'' (packages r)
               \<and> high r = count_level ''HIGH'' (packages r)
               \<and> medium r = count_level ''MEDIUM'' (packages r)
               \<and> low r = count_level ''LOW'' (packages r))
     \<and> (\<forall>r1 r2. length deps = 30
           \<and> outcome_at env eco deps 0 = Inr r1 \<and> outcome_at env eco deps 1 = Inr r2
           \<and> length (packages r1) = 25
           \<and> count_level ''CRITICAL'' (packages r1) = 1 \<and> count_level ''HIGH'' (packages r1) = 2
           \<and> count_level ''MEDIUM'' (packages r1) = 10 \<and> count_level ''LOW'' (packages r1) = 12
           \<and> length (packages r2) = 5
           \<and> count_level ''CRITICAL'' (packages r2) = 0 \<and> count_level ''HIGH'' (packages r2) = 1
           \<and> count_level ''MEDIUM'' (packages r2) = 2 \<and> count_level ''LOW'' (packages r2) = 2
           \<longrightarrow> (\<exists>r log. scanDependencies env apiKey basePath includeDev ov = (Inr r, log)
                  \<and> length (requests log) = 2
                  \<and> total r = 30 \<and> critical r = 1 \<and> high r = 3 \<and> medium r = 12 \<and> low r = 14))"
proof -
  let ?n = "totalBatches (length deps)"
  let ?sd = "scanDependencies env apiKey basePath includeDev ov"
  have returned: "requests log = map (\<lambda>k. (batch_at deps k, eco)) [0..<?n]
               \<and> packages r = concat (map (packages_at env eco deps) [0..<?n])
               \<and> total r = int (length (packages r))
               \<and> critical r = count_level ''CRITICAL'' (packages r)
               \<and> high r = count_level ''HIGH'' (packages r)
               \<and> medium r = count_level ''MEDIUM'' (packages r)
               \<and> low r = count_level ''LOW'' (packages r)"
    if ret: "?sd = (Inr r, log)" for r log
  proof -
    from batches_returned [OF read big ret, folded eco] obtain st where
      r: "r = aggregate st fmt eco"
      and pk: "allPackages st = concat (map (packages_at env eco deps) [0..<?n])"
      and rq: "requests log = map (\<lambda>j. (batch_at deps j, eco)) [0..<?n]"
      by auto
    from r have "packages r = allPackages st" "total r = int (length (packages r))"
      "critical r = count_level ''CRITICAL'' (packages r)"
      "high r = count_level ''HIGH'' (packages r)"
      "medium r = count_level ''MEDIUM'' (packages r)"
      "low r = count_level ''LOW'' (packages r)"
      by (simp_all add: aggregate_def Let_def)
    with pk rq show ?thesis by simp
  qed
  have part1: "concat (map (batch_at deps) [0..<?n]) = deps"
    by (rule concat_batches)
  have part2: "\<forall>k. k < ?n
           \<longrightarrow> batch_at deps k \<noteq> [] \<and> length (batch_at deps k) \<le> 25
               \<and> (Suc k < ?n \<longrightarrow> length (batch_at deps k) = 25)"
    using batch_sizes [of _ deps] by (simp add: BATCH_SIZE_def)
  have part3: "\<exists>j. j \<le> ?n \<and> requests (snd ?sd) = map (\<lambda>k. (batch_at deps k, eco)) [0..<j]"
  proof (cases ?sd)
    case (Pair res log)
    show ?thesis
    proof (cases res)
      case (Inl err)
      with Pair batches_thrown [OF read big, of apiKey ov err log, folded eco]
      obtain j where "j < ?n" "requests log = map (\<lambda>k. (batch_at deps k, eco)) [0..<Suc j]"
        by auto
      then show ?thesis
        by (intro exI [of _ "Suc j"]) (simp add: Pair)
    next
      case (Inr r)
      with Pair returned [of r log] show ?thesis
        by (intro exI [of _ ?n]) simp
    qed
  qed
  have part4: "\<forall>r log. ?sd = (Inr r, log)
           \<longrightarrow> requests log = map (\<lambda>k. (batch_at deps k, eco)) [0..<?n]
               \<and> packages r = concat (map (packages_at env eco deps) [0..<?n])
               \<and> total r = int (length (packages r))
               \<and> critical r = count_level ''CRITICAL'' (packages r)
               \<and> high r = count_level ''HIGH'' (packages r)
               \<and> medium r = count_level ''MEDIUM'' (packages r)
               \<and> low r = count_level ''LOW'' (packages r)"
    using returned by blast
  have part5: "\<exists>r log. ?sd = (Inr r, log)
                  \<and> length (requests log) = 2
                  \<and> total r = 30 \<and> critical r = 1 \<and> high r = 3 \<and> medium r = 12 \<and> low r = 14"
    if len: "length deps = 30"
      and o1: "outcome_at env eco deps 0 = Inr r1" and o2: "outcome_at env eco deps 1 = Inr r2"
      and c1: "length (packages r1) = 25"
        "count_level ''CRITICAL'' (packages r1) = 1" "count_level ''HIGH'' (packages r1) = 2"
        "count_level ''MEDIUM'' (packages r1) = 10" "count_level ''LOW'' (packages r1) = 12"
      and c2: "length (packages r2) = 5"
        "count_level ''CRITICAL'' (packages r2) = 0" "count_level ''HIGH'' (packages r2) = 1"
        "count_level ''MEDIUM'' (packages r2) = 2" "count_level ''LOW'' (packages r2) = 2"
    for r1 r2
  proof -
    have n: "?n = 2" by (simp add: len totalBatches_30)
    have upt2: "[0..<2] = [0, Suc 0]" by (simp add: numeral_2_eq_2)
    have "\<forall>j. j < ?n \<longrightarrow> \<not> fatal_at env (chosen_ecosystem ov eco0) deps j"
      using o1 o2 by (auto simp: n below_2 fatal_at_def eco)
    from batches_return [OF read big this, of apiKey] obtain r log
      where ret: "?sd = (Inr r, log)" by blast
    from returned [OF ret] have rq: "length (requests log) = 2"
      and pk: "packages r = packages r1 @ packages r2"
      and counts: "total r = int (length (packages r))"
        "critical r = count_level ''CRITICAL'' (packages r)"
        "high r = count_level ''HIGH'' (packages r)"
        "medium r = count_level ''MEDIUM'' (packages r)"
        "low r = count_level ''LOW'' (packages r)"
      using o1 o2 by (simp_all add: n upt2 packages_at_def)
    have "total r = 30 \<and> critical r = 1 \<and> high r = 3 \<and> medium r = 12 \<and> low r = 14"
      by (simp add: counts pk count_level_append c1 c2)
    with ret rq show ?thesis by blast
  qed
  from part1 part2 part3 part4 part5 show ?thesis by blast
qed


theorem batches_in_order_witness:
  "BATCH_SIZE < length (numbered_deps 30)
   \<and> outcome_at (repo_env (numbered_deps 30) (two_answers first_batch_answer second_batch_answer))
         ''npm'' (numbered_deps 30) 0 = Inr first_batch_answer
   \<and> outcome_at (repo_env (numbered_deps 30) (two_answers first_batch_answer second_batch_answer))
         ''npm'' (numbered_deps 30) 1 = Inr second_batch_answer
   \<and> length (packages first_batch_answer) = 25
   \<and> count_level ''CRITICAL'' (packages first_batch_answer) = 1
   \<and> count_level ''HIGH'' (packages first_batch_answer) = 2
   \<and> count_level ''MEDIUM'' (packages first_batch_answer) = 10
   \<and> count_level ''LOW'' (packages first_batch_answer) = 12
   \<and> length (packages second_batch_answer) = 5
   \<and> count_level ''CRITICAL'' (packages second_batch_answer) = 0
   \<and> count_level ''HIGH'' (packages second_batch_answer) = 1
   \<and> count_level ''MEDIUM'' (packages second_batch_answer) = 2
   \<and> count_level ''LOW'' (packages second_batch_answer) = 2
   \<and> concat (map (batch_at (numbered_deps 30)) [0..<totalBatches (length (numbered_deps 30))])
       = numbered_deps 30
   \<and> (\<exists>r log. scanDependencies
          (repo_env (numbered_deps 30) (two_answers first_batch_answer second_batch_answer))
          ''test-key'' ''/repo'' True None = (Inr r, log)
        \<and> length (requests log) = 2
        \<and> total r = 30 \<and> critical r = 1 \<and> high r = 3 \<and> medium r = 12 \<and> low r = 14)"
proof -
  let ?d = "numbered_deps 30"
  let ?env = "repo_env ?d (two_answers first_batch_answer second_batch_answer)"
  have big: "BATCH_SIZE < length ?d"
    by (simp add: length_numbered_deps BATCH_SIZE_def)
  have eco: "''npm'' = chosen_ecosystem None ''npm''"
    by (simp add: chosen_ecosystem_def)
  have len: "length ?d = 30"
    by (rule length_numbered_deps)
  have o: "outcome_at ?env ''npm'' ?d 0 = Inr first_batch_answer"
    "outcome_at ?env ''npm'' ?d 1 = Inr second_batch_answer"
    by (simp_all add: outcome_at_def repo_env_def two_answers_def)
  have c1: "length (packages first_batch_answer) = 25
      \<and> count_level ''CRITICAL'' (packages first_batch_answer) = 1
      \<and> count_level ''HIGH'' (packages first_batch_answer) = 2
      \<and> count_level ''MEDIUM'' (packages first_batch_answer) = 10
      \<and> count_level ''LOW'' (packages first_batch_answer) = 12"
    by code_simp
  have c2: "length (packages second_batch_answer) = 5
      \<and> count_level ''CRITICAL'' (packages second_batch_answer) = 0
      \<and> count_level ''HIGH'' (packages second_batch_answer) = 1
      \<and> count_level ''MEDIUM'' (packages second_batch_answer) = 2
      \<and> count_level ''LOW'' (packages second_batch_answer) = 2"
    by code_simp
  note all = batches_in_order [where apiKey = "''test-key''",
      OF read_deps_repo_env [of ?d "two_answers first_batch_answer second_batch_answer" True]
        big eco]
  from all have whole: "concat (map (batch_at ?d) [0..<totalBatches (length ?d)]) = ?d"
    by (rule conjunct1)
  from all have "\<forall>r1 r2. length ?d = 30
           \<and> outcome_at ?env ''npm'' ?d 0 = Inr r1 \<and> outcome_at ?env ''npm'' ?d 1 = Inr r2
           \<and> length (packages r1) = 25
           \<and> count_level ''CRITICAL'' (packages r1) = 1 \<and> count_level ''HIGH'' (packages r1) = 2
           \<and> count_level ''MEDIUM'' (packages r1) = 10 \<and> count_level ''LOW'' (packages r1) = 12
           \<and> length (packages r2) = 5
           \<and> count_level ''CRITICAL'' (packages r2) = 0 \<and> count_level ''HIGH'' (packages r2) = 1
           \<and> count_level ''MEDIUM'' (packages r2) = 2 \<and> count_level ''LOW'' (packages r2) = 2
           \<longrightarrow> (\<exists>r log. scanDependencies ?env ''test-key'' ''/repo'' True None = (Inr r, log)
                  \<and> length (requests log) = 2
                  \<and> total r = 30 \<and> critical r = 1 \<and> high r = 3 \<and> medium r = 12 \<and> low r = 14)"
    by (elim conjE)
  from this [rule_format, of first_batch_answer second_batch_answer] len o c1 c2
  have "\<exists>r log. scanDependencies ?env ''test-key'' ''/repo'' True None = (Inr r, log)
                  \<and> length (requests log) = 2
                  \<and> total r = 30 \<and> critical r = 1 \<and> high r = 3 \<and> medium r = 12 \<and> low r = 14"
    by blast
  with big o c1 c2 whole show ?thesis by blast
qed

subsection \<open>A scan of one request\<close>

text \<open>
  C6 (amended). For a mapping of 1 to 25 entries scanDependencies makes exactly one
  request, for the whole mapping. When the request succeeds, the result is its answer
  with the format and the ecosystem added. When it fails with an \<^verbatim>\<open>ApiClientError\<close>,
  that error is thrown unchanged. When it fails with anything else, a new
  \<^verbatim>\<open>Error\<close> is thrown whose message is \<^verbatim>\<open>Failed to scan dependencies: \<close> followed
  by the message of what was thrown.
\<close>

theorem single_request_scan:
  assumes read: "read_deps env basePath includeDev = (Inr (ReadResult deps eco0 fmt), evs)"
    and nonempty: "0 < length deps"
    and small: "length deps \<le> BATCH_SIZE"
    and eco: "eco = chosen_ecosystem ov eco0"
  shows "requests (snd (scanDependencies env apiKey basePath includeDev ov)) = [(deps, eco)]
     \<and> (\<forall>res. scan env 0 deps eco = Inr res
           \<longrightarrow> fst (scanDependencies env apiKey basePath includeDev ov)
                 = Inr (with_meta res fmt eco))
     \<and> (\<forall>c s m. scan env 0 deps eco = Inl (ApiClientError c s m)
           \<longrightarrow> fst (scanDependencies env apiKey basePath includeDev ov)
                 = Inl (ApiClientError c s m))
     \<and> (\<forall>err. scan env 0 deps eco = Inl err \<and> \<not> (\<exists>c s m. err = ApiClientError c s m)
           \<longrightarrow> fst (scanDependencies env apiKey basePath includeDev ov)
                 = Inl (Error (''Failed to scan dependencies: '' @ error_message err)))"
proof -
  from scanDependencies_single [OF read nonempty small, of ov apiKey, folded eco] obtain log where
    req: "requests log = [(deps, eco)]"
    and sd: "scanDependencies env apiKey basePath includeDev ov =
       (case scan env 0 deps eco of
          Inr result \<Rightarrow> (Inr (with_meta result fmt eco), log)
        | Inl err \<Rightarrow> (Inl (rethrow_single err), log))"
    by blast
  have "requests (snd (scanDependencies env apiKey basePath includeDev ov)) = [(deps, eco)]"
    using req by (simp add: sd split: sum.splits)
  moreover have "\<forall>res. scan env 0 deps eco = Inr res
           \<longrightarrow> fst (scanDependencies env apiKey basePath includeDev ov)
                 = Inr (with_meta res fmt eco)"
    by (simp add: sd)
  moreover have "\<forall>c s m. scan env 0 deps eco = Inl (ApiClientError c s m)
           \<longrightarrow> fst (scanDependencies env apiKey basePath includeDev ov)
                 = Inl (ApiClientError c s m)"
    by (simp add: sd)
  moreover have "\<forall>err. scan env 0 deps eco = Inl err \<and> \<not> (\<exists>c s m. err = ApiClientError c s m)
           \<longrightarrow> fst (scanDependencies env apiKey basePath includeDev ov)
                 = Inl (Error (''Failed to scan dependencies: '' @ error_message err))"
    using not_api_error_rethrow by (auto simp: sd)
  ultimately show ?thesis by blast
qed

theorem single_request_scan_counterexample:
  "scan (repo_env lodash_only (first_fails (Error ''Network failure''))) 0 lodash_only ''npm''
     = Inl (Error ''Network failure'')
   \<and> fst (scanDependencies (repo_env lodash_only (first_fails (Error ''Network failure'')))
            ''test-key'' ''/repo'' True None)
       = Inl (Error ''Failed to scan dependencies: Network failure'')
   \<and> Error ''Failed to scan dependencies: Network failure'' \<noteq> Error ''Network failure''"
  by code_simp

theorem single_request_scan_witness:
  "0 < length lodash_only \<and> length lodash_only \<le> BATCH_SIZE
   \<and> scan (repo_env lodash_only (always_answers one_low)) 0 lodash_only ''npm'' = Inr one_low
   \<and> requests (snd (scanDependencies (repo_env lodash_only (always_answers one_low))
                       ''test-key'' ''/repo'' True None)) = [(lodash_only, ''npm'')]
   \<and> fst (scanDependencies (repo_env lodash_only (always_answers one_low))
            ''test-key'' ''/repo'' True None) = Inr (with_meta one_low ''package.json'' ''npm'')
   \<and> scan (repo_env lodash_only
              (first_fails (ApiClientError unauthorized (Some 401) ''Invalid API key'')))
        0 lodash_only ''npm''
       = Inl (ApiClientError unauthorized (Some 401) ''Invalid API key'')
   \<and> fst (scanDependencies
            (repo_env lodash_only
               (first_fails (ApiClientError unauthorized (Some 401) ''Invalid API key'')))
            ''test-key'' ''/repo'' True None)
       = Inl (ApiClientError unauthorized (Some 401) ''Invalid API key'')
   \<and> scan (repo_env lodash_only (first_fails (NonError ''aborted''))) 0 lodash_only ''npm''
       = Inl (NonError ''aborted'')
   \<and> fst (scanDependencies (repo_env lodash_only (first_fails (NonError ''aborted'')))
            ''test-key'' ''/repo'' True None)
       = Inl (Error ''Failed to scan dependencies: aborted'')"
proof -
  have sz: "0 < length lodash_only" "length lodash_only \<le> BATCH_SIZE"
    by (simp_all add: lodash_only_def BATCH_SIZE_def)
  have eco: "''npm'' = chosen_ecosystem None ''npm''"
    by (simp add: chosen_ecosystem_def)
  have ok: "scan (repo_env lodash_only (always_answers one_low)) 0 lodash_only ''npm''
      = Inr one_low"
    by (simp add: repo_env_def always_answers_def)
  have api: "scan (repo_env lodash_only
              (first_fails (ApiClientError unauthorized (Some 401) ''Invalid API key'')))
        0 lodash_only ''npm''
       = Inl (ApiClientError unauthorized (Some 401) ''Invalid API key'')"
    by (simp add: repo_env_def first_fails_def)
  have other: "scan (repo_env lodash_only (first_fails (NonError ''aborted''))) 0 lodash_only ''npm''
       = Inl (NonError ''aborted'')"
    by (simp add: repo_env_def first_fails_def)
  note a = single_request_scan [where apiKey = "''test-key''",
      OF read_deps_repo_env [of lodash_only "always_answers one_low" True] sz eco]
  note b = single_request_scan [where apiKey = "''test-key''",
      OF read_deps_repo_env [of lodash_only
        "first_fails (ApiClientError unauthorized (Some 401) ''Invalid API key'')" True] sz eco]
  note c = single_request_scan [where apiKey = "''test-key''",
      OF read_deps_repo_env [of lodash_only "first_fails (NonError ''aborted'')" True] sz eco]
  from a ok have "requests (snd (scanDependencies (repo_env lodash_only (always_answers one_low))
                       ''test-key'' ''/repo'' True None)) = [(lodash_only, ''npm'')]
     \<and> fst (scanDependencies (repo_env lodash_only (always_answers one_low))
            ''test-key'' ''/repo'' True None) = Inr (with_meta one_low ''package.json'' ''npm'')"
    by blast
  moreover from b api have "fst (scanDependencies
            (repo_env lodash_only
               (first_fails (ApiClientError unauthorized (Some 401) ''Invalid API key'')))
            ''test-key'' ''/repo'' True None)
       = Inl (ApiClientError unauthorized (Some 401) ''Invalid API key'')"
    by blast
  moreover from c other have "fst (scanDependencies (repo_env lodash_only (first_fails (NonError ''aborted'')))
            ''test-key'' ''/repo'' True None)
       = Inl (Error (''Failed to scan dependencies: '' @ error_message (NonError ''aborted'')))"
    by blast
  ultimately show ?thesis using sz ok api other by simp
qed

subsection \<open>Data quality in the aggregate\<close>

text \<open>
  C7. In the result of a scan of more than 25 dependencies, the data-quality counts
  are the numbers of merged packages that are VERIFIED, PARTIAL and UNVERIFIED, where a
  package whose assessment is missing or is not one of these names counts as
  UNVERIFIED; verified_risk_count is the number of VERIFIED packages whose risk level
  is HIGH or CRITICAL, and unverified_risk_count the number of PARTIAL or UNVERIFIED
  packages whose risk level is HIGH or CRITICAL.
\<close>

theorem data_quality_aggregation:
  assumes read: "read_deps env basePath includeDev = (Inr (ReadResult deps eco0 fmt), evs)"
    and big: "BATCH_SIZE < length deps"
    and ret: "scanDependencies env apiKey basePath includeDev ov = (Inr r, log)"
  shows "data_quality_counts r =
       Some \<lparr>verified_count = length (filter (\<lambda>p. spec_quality p = VERIFIED) (packages r)),
             partial_count = length (filter (\<lambda>p. spec_quality p = PARTIAL) (packages r)),
             unverified_count = length (filter (\<lambda>p. spec_quality p = UNVERIFIED) (packages r))\<rparr>
     \<and> verified_risk_count r =
         Some (length (filter (\<lambda>p. spec_quality p = VERIFIED
                  \<and> (risk_level p = ''HIGH'' \<or> risk_level p = ''CRITICAL'')) (packages r)))
     \<and> unverified_risk_count r =
         Some (length (filter (\<lambda>p. (spec_quality p = PARTIAL \<or> spec_quality p = UNVERIFIED)
                  \<and> (risk_level p = ''HIGH'' \<or> risk_level p = ''CRITICAL'')) (packages r)))"
proof -
  from batches_returned [OF read big ret] obtain st
    where "r = aggregate st fmt (chosen_ecosystem ov eco0)" by blast
  then show ?thesis
    by (simp add: aggregate_def Let_def quality_loop_counts spec_high_risk_def)
qed

theorem data_quality_aggregation_witness:
  "BATCH_SIZE < length (numbered_deps 30)
   \<and> (\<exists>r log. scanDependencies (repo_env (numbered_deps 30) (always_answers mixed_quality))
                 ''test-key'' ''/repo'' True None = (Inr r, log)
        \<and> packages r = packages mixed_quality @ packages mixed_quality
        \<and> data_quality_counts r
            = Some \<lparr>verified_count = 4, partial_count = 2, unverified_count = 4\<rparr>
        \<and> verified_risk_count r = Some 2
        \<and> unverified_risk_count r = Some 4)"
proof -
  let ?env = "repo_env (numbered_deps 30) (always_answers mixed_quality)"
  have big: "BATCH_SIZE < length (numbered_deps 30)"
    by (simp add: length_numbered_deps BATCH_SIZE_def)
  have "map_sum id packages (fst (scanDependencies ?env ''test-key'' ''/repo'' True None))
      = Inr (packages mixed_quality @ packages mixed_quality)"
    by code_simp
  then obtain r log where
    ret: "scanDependencies ?env ''test-key'' ''/repo'' True None = (Inr r, log)"
    and pk: "packages r = packages mixed_quality @ packages mixed_quality"
    by (cases "scanDependencies ?env ''test-key'' ''/repo'' True None";
        cases "fst (scanDependencies ?env ''test-key'' ''/repo'' True None)") auto
  from data_quality_aggregation [OF read_deps_repo_env big ret]
  have "data_quality_counts r
            = Some \<lparr>verified_count = 4, partial_count = 2, unverified_count = 4\<rparr>
        \<and> verified_risk_count r = Some 2
        \<and> unverified_risk_count r = Some 4"
    by (simp add: pk mixed_quality_def quality_package_def spec_quality_def)
  with ret pk big show ?thesis by blast
qed

subsection \<open>The empty mapping\<close>

text \<open>
  C8. When the manifest read gives an empty dependency mapping, scanDependencies
  returns the zero-valued result (total and the four severity counts 0, no package, no
  optional field) and the client has sent no request.
\<close>

theorem empty_mapping_zero_result:
  assumes "read_deps env basePath includeDev = (Inr (ReadResult [] eco0 fmt), evs)"
  shows "\<exists>r log. scanDependencies env apiKey basePath includeDev ov = (Inr r, log)
           \<and> total r = 0 \<and> critical r = 0 \<and> high r = 0 \<and> medium r = 0 \<and> low r = 0
           \<and> packages r = [] \<and> not_found r = None \<and> data_quality_counts r = None
           \<and> verified_risk_count r = None \<and> unverified_risk_count r = None
           \<and> requests log = []"
proof -
  have "requests evs = []"
    using read_deps_requests [of env basePath includeDev] assms by simp
  then show ?thesis
    by (simp add: scanDependencies_read [OF assms] scan_read_def empty_result_def
        requests_append Let_def split: option.splits)
qed

theorem empty_mapping_zero_result_witness:
  "read_deps (repo_env [] no_service) ''/repo'' True
     = (Inr (ReadResult [] ''npm'' ''package.json''), [ReadDependencies ''/repo'' True])
   \<and> (\<exists>r log. scanDependencies (repo_env [] no_service) ''test-key'' ''/repo'' True None
                 = (Inr r, log)
         \<and> total r = 0 \<and> critical r = 0 \<and> high r = 0 \<and> medium r = 0 \<and> low r = 0
         \<and> packages r = [] \<and> not_found r = None \<and> data_quality_counts r = None
         \<and> verified_risk_count r = None \<and> unverified_risk_count r = None
         \<and> requests log = [])"
proof -
  have h: "read_deps (repo_env [] no_service) ''/repo'' True
     = (Inr (ReadResult [] ''npm'' ''package.json''), [ReadDependencies ''/repo'' True])"
    by (rule read_deps_repo_env)
  from empty_mapping_zero_result [OF h, of "''test-key''" None] h show ?thesis
    by simp
qed

subsection \<open>The not-found list\<close>

text \<open>
  C9 (amended). In the result of a scan of more than 25 dependencies, the not-found
  list is the concatenation, in batch order, of the not-found lists of the successful
  batches (and is absent when that is empty): names are kept as the service sent them,
  repeated ones included. It is free of duplicates when the keys of the mapping are
  distinct and every batch's list is free of duplicates and names packages of its own
  batch only.
\<close>

theorem not_found_concatenated:
  assumes read: "read_deps env basePath includeDev = (Inr (ReadResult deps eco0 fmt), evs)"
    and big: "BATCH_SIZE < length deps"
    and ret: "scanDependencies env apiKey basePath includeDev ov = (Inr r, log)"
    and eco: "eco = chosen_ecosystem ov eco0"
  shows "not_found r
           = (if merged_not_found env eco deps = [] then None
              else Some (merged_not_found env eco deps))
     \<and> (distinct (map fst deps)
          \<and> (\<forall>k. k < totalBatches (length deps)
                \<longrightarrow> distinct (not_found_at env eco deps k)
                    \<and> set (not_found_at env eco deps k) \<subseteq> fst ` set (batch_at deps k))
         \<longrightarrow> distinct (merged_not_found env eco deps))"
proof
  from batches_returned [OF read big ret, folded eco] obtain st
    where st: "r = aggregate st fmt eco"
      "notFound st = concat (map (not_found_at env eco deps) [0..<totalBatches (length deps)])"
    by blast
  have "not_found r = (if notFound st = [] then None else Some (notFound st))"
    by (simp add: st(1) aggregate_def Let_def)
  then show "not_found r
           = (if merged_not_found env eco deps = [] then None
              else Some (merged_not_found env eco deps))"
    by (simp only: st(2) merged_not_found_def)
next
  show "distinct (map fst deps)
          \<and> (\<forall>k. k < totalBatches (length deps)
                \<longrightarrow> distinct (not_found_at env eco deps k)
                    \<and> set (not_found_at env eco deps k) \<subseteq> fst ` set (batch_at deps k))
         \<longrightarrow> distinct (merged_not_found env eco deps)"
  proof
    assume h: "distinct (map fst deps)
          \<and> (\<forall>k. k < totalBatches (length deps)
                \<longrightarrow> distinct (not_found_at env eco deps k)
                    \<and> set (not_found_at env eco deps k) \<subseteq> fst ` set (batch_at deps k))"
    then have d: "distinct (map fst deps)"
      and each: "\<And>k. k < totalBatches (length deps) \<Longrightarrow> distinct (not_found_at env eco deps k)"
      and sub: "\<And>k. k < totalBatches (length deps)
          \<Longrightarrow> set (not_found_at env eco deps k) \<subseteq> fst ` set (batch_at deps k)"
      by simp_all
    have disj: "set (not_found_at env eco deps j) \<inter> set (not_found_at env eco deps k) = {}"
      if "j < k" "k < totalBatches (length deps)" for j k
    proof -
      from that have "j < totalBatches (length deps)" by simp
      from sub [OF this] sub [OF that(2)] batch_names_disjoint [OF d that(1)]
      show ?thesis by blast
    qed
    have "distinct (concat (map (not_found_at env eco deps) [0..<totalBatches (length deps)]))"
    proof (rule distinct_concat_upt)
      show "\<forall>k. k < totalBatches (length deps) \<longrightarrow> distinct (not_found_at env eco deps k)"
        using each by simp
      show "\<forall>j k. j < k \<and> k < totalBatches (length deps)
          \<longrightarrow> set (not_found_at env eco deps j) \<inter> set (not_found_at env eco deps k) = {}"
        using disj by simp
    qed
    then show "distinct (merged_not_found env eco deps)"
      by (simp only: merged_not_found_def)
  qed
qed

theorem not_found_concatenated_counterexample:
  "map_sum id not_found
     (fst (scanDependencies (repo_env (numbered_deps 30) (always_answers (not_found_only [''ghost''])))
             ''test-key'' ''/repo'' True None))
     = Inr (Some [''ghost'', ''ghost''])
   \<and> \<not> distinct [''ghost'', ''ghost'']"
  by code_simp


theorem not_found_concatenated_witness:
  "BATCH_SIZE < length (numbered_deps 30)
   \<and> distinct (map fst (numbered_deps 30))
   \<and> (\<exists>r log. scanDependencies
          (repo_env (numbered_deps 30)
             (two_answers (not_found_only [''pkg-23'', ''pkg-24'']) (not_found_only [''pkg-29''])))
          ''test-key'' ''/repo'' True None = (Inr r, log)
        \<and> not_found r = Some [''pkg-23'', ''pkg-24'', ''pkg-29'']
        \<and> distinct [''pkg-23'', ''pkg-24'', ''pkg-29''])"
proof -
  let ?d = "numbered_deps 30"
  let ?env = "repo_env ?d
     (two_answers (not_found_only [''pkg-23'', ''pkg-24'']) (not_found_only [''pkg-29'']))"
  have big: "BATCH_SIZE < length ?d"
    by (simp add: length_numbered_deps BATCH_SIZE_def)
  have eco: "''npm'' = chosen_ecosystem None ''npm''"
    by (simp add: chosen_ecosystem_def)
  have n: "totalBatches (length ?d) = 2"
    by (simp add: length_numbered_deps totalBatches_30)
  have d: "distinct (map fst ?d)"
    by code_simp
  have m: "merged_not_found ?env ''npm'' ?d = [''pkg-23'', ''pkg-24'', ''pkg-29'']"
    by code_simp
  have k0: "distinct (not_found_at ?env ''npm'' ?d 0)
      \<and> set (not_found_at ?env ''npm'' ?d 0) \<subseteq> fst ` set (batch_at ?d 0)"
    by code_simp
  have k1: "distinct (not_found_at ?env ''npm'' ?d 1)
      \<and> set (not_found_at ?env ''npm'' ?d 1) \<subseteq> fst ` set (batch_at ?d 1)"
    by code_simp
  have each: "\<forall>k. k < totalBatches (length ?d)
      \<longrightarrow> distinct (not_found_at ?env ''npm'' ?d k)
          \<and> set (not_found_at ?env ''npm'' ?d k) \<subseteq> fst ` set (batch_at ?d k)"
    using k0 k1 by (auto simp: n below_2)
  have "map_sum id not_found (fst (scanDependencies ?env ''test-key'' ''/repo'' True None))
      = Inr (Some [''pkg-23'', ''pkg-24'', ''pkg-29''])"
    by code_simp
  then obtain r log where
    ret: "scanDependencies ?env ''test-key'' ''/repo'' True None = (Inr r, log)"
    by (cases "scanDependencies ?env ''test-key'' ''/repo'' True None";
        cases "fst (scanDependencies ?env ''test-key'' ''/repo'' True None)") auto
  from not_found_concatenated [OF read_deps_repo_env big ret eco] d each
  have "not_found r = Some [''pkg-23'', ''pkg-24'', ''pkg-29'']
      \<and> distinct [''pkg-23'', ''pkg-24'', ''pkg-29'']"
    by (simp add: m)
  with ret big d show ?thesis by blast
qed

subsection \<open>Paths outside the workspace\<close>

text \<open>
  C10. scanDependencies resolves the symlinks of the resolved input path. It throws an
  \<^verbatim>\<open>Error\<close>, having read no manifest and sent no request, when the path does not
  exist, when its real path cannot be resolved, and when its real path lies outside the
  workspace (\<^verbatim>\<open>GITHUB_WORKSPACE\<close>, or the working directory when that is unset or
  empty). It reads a manifest or sends a request only when the real path lies within
  the workspace.
\<close>

theorem symlink_escape_rejected:
  assumes rp: "resolvedPath = resolve (cwd env) basePath"
  shows "(\<not> existsSync env resolvedPath \<longrightarrow>
            scanDependencies env apiKey basePath includeDev ov
              = (Inl (Error (''Path does not exist: '' @ resolvedPath @ hint)), []))
     \<and> (\<forall>msg. existsSync env resolvedPath \<and> realpathSync env resolvedPath = Inl msg \<longrightarrow>
            scanDependencies env apiKey basePath includeDev ov
              = (Inl (Error (''Cannot resolve path '' @ resolvedPath @ '': '' @ msg @ hint)), []))
     \<and> (\<forall>realPath. existsSync env resolvedPath \<and> realpathSync env resolvedPath = Inr realPath
            \<and> \<not> inside_workspace env realPath \<longrightarrow>
            scanDependencies env apiKey basePath includeDev ov
              = (Inl (Error (''Path resolves outside workspace via symlink: '' @ resolvedPath
                   @ '' -> '' @ realPath @ hint)), []))
     \<and> (reads (snd (scanDependencies env apiKey basePath includeDev ov)) \<noteq> []
          \<or> requests (snd (scanDependencies env apiKey basePath includeDev ov)) \<noteq> [] \<longrightarrow>
            (\<exists>realPath. existsSync env resolvedPath
               \<and> realpathSync env resolvedPath = Inr realPath \<and> inside_workspace env realPath))"
proof (intro conjI allI impI)
  assume "\<not> existsSync env resolvedPath"
  then show "scanDependencies env apiKey basePath includeDev ov
              = (Inl (Error (''Path does not exist: '' @ resolvedPath @ hint)), [])"
    by (simp add: scanDependencies_def read_deps_def Let_def rp)
next
  fix msg
  assume "existsSync env resolvedPath \<and> realpathSync env resolvedPath = Inl msg"
  then show "scanDependencies env apiKey basePath includeDev ov
              = (Inl (Error (''Cannot resolve path '' @ resolvedPath @ '': '' @ msg @ hint)), [])"
    by (simp add: scanDependencies_def read_deps_def Let_def rp)
next
  fix realPath
  assume h: "existsSync env resolvedPath \<and> realpathSync env resolvedPath = Inr realPath
            \<and> \<not> inside_workspace env realPath"
  then have "startsWith (relative (cwd env) (workspace env) realPath) ''..''"
    by (simp add: inside_workspace_def relative_outside)
  with h show "scanDependencies env apiKey basePath includeDev ov
              = (Inl (Error (''Path resolves outside workspace via symlink: '' @ resolvedPath
                   @ '' -> '' @ realPath @ hint)), [])"
    by (simp add: scanDependencies_def read_deps_def Let_def rp)
next
  assume did: "reads (snd (scanDependencies env apiKey basePath includeDev ov)) \<noteq> []
          \<or> requests (snd (scanDependencies env apiKey basePath includeDev ov)) \<noteq> []"
  show "\<exists>realPath. existsSync env resolvedPath
               \<and> realpathSync env resolvedPath = Inr realPath \<and> inside_workspace env realPath"
  proof (cases "existsSync env resolvedPath")
    case False
    then have "snd (scanDependencies env apiKey basePath includeDev ov) = []"
      by (simp add: scanDependencies_def read_deps_def Let_def rp)
    with did show ?thesis by simp
  next
    case True
    show ?thesis
    proof (cases "realpathSync env resolvedPath")
      case (Inl msg)
      with True have "snd (scanDependencies env apiKey basePath includeDev ov) = []"
        by (simp add: scanDependencies_def read_deps_def Let_def rp)
      with did show ?thesis by simp
    next
      case (Inr realPath)
      have "inside_workspace env realPath"
      proof (rule ccontr)
        assume "\<not> inside_workspace env realPath"
        then have "startsWith (relative (cwd env) (workspace env) realPath) ''..''"
          by (simp add: inside_workspace_def relative_outside)
        with True Inr have "snd (scanDependencies env apiKey basePath includeDev ov) = []"
          by (simp add: scanDependencies_def read_deps_def Let_def rp)
        with did show False by simp
      qed
      with True Inr show ?thesis by simp
    qed
  qed
qed


theorem symlink_escape_rejected_witness:
  "\<not> existsSync (symlink_env False (resolves_to ''/repo/missing'')) ''/repo/missing''
   \<and> scanDependencies (symlink_env False (resolves_to ''/repo/missing''))
         ''test-key'' ''./missing'' False None
       = (Inl (Error (''Path does not exist: /repo/missing'' @ hint)), [])
   \<and> realpathSync (symlink_env True (unresolved ''ENOENT: no such file or directory''))
         ''/repo/broken-link'' = Inl ''ENOENT: no such file or directory''
   \<and> scanDependencies (symlink_env True (unresolved ''ENOENT: no such file or directory''))
         ''test-key'' ''./broken-link'' False None
       = (Inl (Error (''Cannot resolve path /repo/broken-link: ENOENT: no such file or directory''
                        @ hint)), [])
   \<and> \<not> inside_workspace (symlink_env True (resolves_to ''/etc/passwd'')) ''/etc/passwd''
   \<and> scanDependencies (symlink_env True (resolves_to ''/etc/passwd''))
         ''test-key'' ''./symlink-to-etc'' False None
       = (Inl (Error (''Path resolves outside workspace via symlink: /repo/symlink-to-etc -> /etc/passwd''
                        @ hint)), [])
   \<and> reads (snd (scanDependencies
                    (symlink_env True (resolves_to ''/repo/actual/nested/package.json''))
                    ''test-key'' ''./symlink-to-nested'' False None))
       = [ReadDependenciesFromFile ''/repo/actual/nested/package.json'' False]
   \<and> inside_workspace (symlink_env True (resolves_to ''/repo/actual/nested/package.json''))
         ''/repo/actual/nested/package.json''"
proof -
  let ?missing = "symlink_env False (resolves_to ''/repo/missing'')"
  let ?broken = "symlink_env True (unresolved ''ENOENT: no such file or directory'')"
  let ?etc = "symlink_env True (resolves_to ''/etc/passwd'')"
  let ?nested = "symlink_env True (resolves_to ''/repo/actual/nested/package.json'')"
  have r1: "''/repo/missing'' = resolve (cwd ?missing) ''./missing''"
    and r2: "''/repo/broken-link'' = resolve (cwd ?broken) ''./broken-link''"
    and r3: "''/repo/symlink-to-etc'' = resolve (cwd ?etc) ''./symlink-to-etc''"
    and r4: "''/repo/symlink-to-nested'' = resolve (cwd ?nested) ''./symlink-to-nested''"
    by code_simp+
  have h1: "\<not> existsSync ?missing ''/repo/missing''"
    by (simp add: symlink_env_def)
  have h2: "existsSync ?broken ''/repo/broken-link''
      \<and> realpathSync ?broken ''/repo/broken-link'' = Inl ''ENOENT: no such file or directory''"
    by (simp add: symlink_env_def unresolved_def)
  have h3: "existsSync ?etc ''/repo/symlink-to-etc''
      \<and> realpathSync ?etc ''/repo/symlink-to-etc'' = Inr ''/etc/passwd''
      \<and> \<not> inside_workspace ?etc ''/etc/passwd''"
    by code_simp
  have h4: "reads (snd (scanDependencies ?nested ''test-key'' ''./symlink-to-nested'' False None))
      = [ReadDependenciesFromFile ''/repo/actual/nested/package.json'' False]"
    by code_simp
  have real4: "realpathSync ?nested ''/repo/symlink-to-nested''
      = Inr ''/repo/actual/nested/package.json''"
    by (simp add: symlink_env_def resolves_to_def)
  from symlink_escape_rejected [OF r1, of "''test-key''" False None] h1
  have c1: "scanDependencies ?missing ''test-key'' ''./missing'' False None
       = (Inl (Error (''Path does not exist: /repo/missing'' @ hint)), [])"
    by simp
  from symlink_escape_rejected [OF r2, of "''test-key''" False None] h2
  have c2: "scanDependencies ?broken ''test-key'' ''./broken-link'' False None
       = (Inl (Error (''Cannot resolve path /repo/broken-link: ENOENT: no such file or directory''
                        @ hint)), [])"
    by simp
  from symlink_escape_rejected [OF r3, of "''test-key''" False None] h3
  have c3: "scanDependencies ?etc ''test-key'' ''./symlink-to-etc'' False None
       = (Inl (Error (''Path resolves outside workspace via symlink: /repo/symlink-to-etc -> /etc/passwd''
                        @ hint)), [])"
    by simp
  from symlink_escape_rejected [OF r4, of "''test-key''" False None] h4
  have "\<exists>realPath. realpathSync ?nested ''/repo/symlink-to-nested'' = Inr realPath
      \<and> inside_workspace ?nested realPath"
    by simp
  with real4 have c4: "inside_workspace ?nested ''/repo/actual/nested/package.json''"
    by simp
  from h1 c1 h2 c2 h3 c3 h4 c4 show ?thesis by simp
qed

end
